theory Spec2Isabelle
  imports Main "HOL-Library.AList"
begin

section \<open>The backup and checkpoint orchestrator of lib/vdsm/virt/backup.py\<close>

text \<open>
  A shallow embedding of \<^verbatim>\<open>lib/vdsm/virt/backup.py\<close>. Python names are kept; a leading
  underscore of a private function is dropped (\<^verbatim>\<open>_remove_scratch_disks\<close> is
  \<open>remove_scratch_disks\<close>), since an Isabelle name cannot start with one.
\<close>

subsection \<open>Exceptions and hypervisor error codes\<close>

text \<open>
  The \<^verbatim>\<open>libvirt.VIR_ERR_*\<close> codes that backup.py compares against, kept symbolic;
  every other code is \<open>VIR_ERR_OTHER n\<close>.
\<close>

datatype libvirt_code =
    VIR_ERR_OPERATION_INVALID
  | VIR_ERR_NO_DOMAIN_CHECKPOINT
  | VIR_ERR_NO_DOMAIN_BACKUP
  | VIR_ERR_CHECKPOINT_INCONSISTENT
  | VIR_ERR_OTHER nat

text \<open>
  Every exception class that backup.py raises or catches. The vdsm exceptions carry the
  literal part of their \<^verbatim>\<open>reason\<close>; \<open>libvirtError\<close> carries what
  \<^verbatim>\<open>get_error_code()\<close> and \<^verbatim>\<open>get_error_message()\<close> return.
\<close>

datatype exn =
    BackupError string
  | CheckpointError string
  | InconsistentCheckpointError string
  | NoSuchBackupError string
  | libvirtError libvirt_code string
  | NotConnectedError
  | LookupError string
  | AttributeError
  | KeyError string
  | TypeError
  | OtherException string

subsection \<open>Config model\<close>

datatype backup_mode = MODE_FULL | MODE_INCREMENTAL

datatype disk_type = FILE | BLOCK

text \<open>
  The caller's nested mapping. The per-field validators of \<^verbatim>\<open>vdsm.common.properties\<close>
  (required fields, UUID syntax, the two enumerations, \<^verbatim>\<open>minval=0\<close>) are not part of
  the sources at hand; the types below are the mappings that pass them: a required key is
  a plain field, an optional key is an \<open>option\<close> (\<open>None\<close> is Python's \<^verbatim>\<open>None\<close>,
  what \<^verbatim>\<open>dict.get\<close> returns for a missing key), an enumeration is a datatype and
  \<^verbatim>\<open>creation_time\<close> is a natural number.
\<close>

record scratch_disk_dict =
  k_path :: string
  k_type :: disk_type

record disk_dict =
  k_volumeID :: string
  k_imageID :: string
  k_domainID :: string
  k_checkpoint :: bool
  k_backup_mode :: "backup_mode option"
  k_scratch_disk :: "scratch_disk_dict option"

record backup_config_dict =
  k_backup_id :: string
  k_from_checkpoint_id :: "string option"
  k_to_checkpoint_id :: "string option"
  k_parent_checkpoint_id :: "string option"
  k_require_consistency :: "bool option"
  k_creation_time :: "nat option"
  k_disks :: "disk_dict list"

record ScratchDiskConfig =
  sd_path :: string
  sd_type :: disk_type

record DiskConfig =
  vol_id :: string
  img_id :: string
  dom_id :: string
  checkpoint :: bool
  disk_backup_mode :: "backup_mode option"
  disk_scratch_disk :: "ScratchDiskConfig option"

record BackupConfig =
  backup_id :: string
  from_checkpoint_id :: "string option"
  to_checkpoint_id :: "string option"
  parent_checkpoint_id :: "string option"
  require_consistency :: "bool option"
  creation_time :: "nat option"
  disks :: "DiskConfig list"

text \<open>\<^verbatim>\<open>DiskConfig.__init__\<close>.\<close>

definition DiskConfig_init :: "disk_dict \<Rightarrow> DiskConfig" where
  "DiskConfig_init disk_config =
     \<lparr>vol_id = k_volumeID disk_config,
      img_id = k_imageID disk_config,
      dom_id = k_domainID disk_config,
      checkpoint = k_checkpoint disk_config,
      disk_backup_mode = k_backup_mode disk_config,
      disk_scratch_disk =
        (case k_scratch_disk disk_config of
           Some scratch_disk \<Rightarrow>
             Some \<lparr>sd_path = k_path scratch_disk, sd_type = k_type scratch_disk\<rparr>
         | None \<Rightarrow> None)\<rparr>"

text \<open>
  The loop of \<^verbatim>\<open>BackupConfig.__init__\<close> over the constructed disks: it raises at the
  first disk that asks for an incremental backup while \<^verbatim>\<open>from_checkpoint_id\<close> is
  \<^verbatim>\<open>None\<close>.
\<close>

fun check_disks :: "string option \<Rightarrow> DiskConfig list \<Rightarrow> exn + unit" where
  "check_disks from_id [] = Inr ()"
| "check_disks from_id (disk # rest) =
     (if from_id = None \<and> disk_backup_mode disk = Some MODE_INCREMENTAL
      then Inl (BackupError ''Cannot start an incremental backup for disk, full backup is requested'')
      else check_disks from_id rest)"

text \<open>\<^verbatim>\<open>BackupConfig.__init__\<close>: a pure function of the mapping.\<close>

definition BackupConfig_init :: "backup_config_dict \<Rightarrow> exn + BackupConfig" where
  "BackupConfig_init backup_config =
     (if k_from_checkpoint_id backup_config \<noteq> None \<and>
         k_parent_checkpoint_id backup_config = None
      then Inl (BackupError ''Cannot start an incremental backup without parent_checkpoint_id'')
      else
        (let ds = map DiskConfig_init (k_disks backup_config) in
         case check_disks (k_from_checkpoint_id backup_config) ds of
           Inl e \<Rightarrow> Inl e
         | Inr _ \<Rightarrow>
             Inr \<lparr>backup_id = k_backup_id backup_config,
                  from_checkpoint_id = k_from_checkpoint_id backup_config,
                  to_checkpoint_id = k_to_checkpoint_id backup_config,
                  parent_checkpoint_id = k_parent_checkpoint_id backup_config,
                  require_consistency = k_require_consistency backup_config,
                  creation_time = k_creation_time backup_config,
                  disks = ds\<rparr>))"

subsection \<open>Descriptor documents\<close>

text \<open>
  The element tree that \<^verbatim>\<open>vmxml.Element\<close> builds: a tag, the attributes in the order
  they were set, an optional text node and the children in the order they were appended.
  An attribute value is an \<open>option\<close> because the tree holds whatever Python object was
  passed, \<^verbatim>\<open>None\<close> included. \<^verbatim>\<open>vmxml\<close> and \<^verbatim>\<open>xmlutils\<close> are not part of the sources at
  hand; the four operations below are the calls backup.py makes on them.
\<close>

datatype xml =
  Element (xml_tag: string) (xml_attrs: "(string \<times> string option) list")
    (xml_text: "string option") (xml_children: "xml list")

definition appendTextNode :: "xml \<Rightarrow> string \<Rightarrow> xml" where
  "appendTextNode e t = Element (xml_tag e) (xml_attrs e) (Some t) (xml_children e)"

definition appendChild :: "xml \<Rightarrow> xml \<Rightarrow> xml" where
  "appendChild e c = Element (xml_tag e) (xml_attrs e) (xml_text e) (xml_children e @ [c])"

definition set_attr :: "xml \<Rightarrow> string \<Rightarrow> string option \<Rightarrow> xml" where
  "set_attr e k v = Element (xml_tag e) (AList.update k v (xml_attrs e)) (xml_text e) (xml_children e)"

text \<open>
  \<^verbatim>\<open>xmlutils.tostring\<close>: the document is kept as its tree rather than as text.
  Serialisation fails with a \<^verbatim>\<open>TypeError\<close> on an attribute whose value is \<^verbatim>\<open>None\<close>,
  as ElementTree does.
\<close>

fun serialisable :: "xml \<Rightarrow> bool" where
  "serialisable (Element t as txt cs) =
     (list_all (\<lambda>kv. snd kv \<noteq> None) as \<and> list_all serialisable cs)"

definition tostring :: "xml \<Rightarrow> exn + xml" where
  "tostring e = (if serialisable e then Inr e else Inl TypeError)"

definition disk_type_str :: "disk_type \<Rightarrow> string" where
  "disk_type_str t = (case t of FILE \<Rightarrow> ''file'' | BLOCK \<Rightarrow> ''block'')"

definition mode_str :: "backup_mode \<Rightarrow> string" where
  "mode_str m = (case m of MODE_FULL \<Rightarrow> ''full'' | MODE_INCREMENTAL \<Rightarrow> ''incremental'')"

text \<open>Python's \<^verbatim>\<open>str\<close> on a non-negative integer.\<close>

fun str :: "nat \<Rightarrow> string" where
  "str n = (if n < 10 then [char_of (48 + n)] else str (n div 10) @ [char_of (48 + n mod 10)])"

declare str.simps [simp del]

record address =
  transport :: string
  socket :: string

text \<open>
  \<^verbatim>\<open>nbdutils.UnixAddress\<close> is not part of the sources at hand; the transport name is the
  one of the docstring of \<^verbatim>\<open>_parse_backup_info\<close>.
\<close>

definition UnixAddress :: "string \<Rightarrow> address" where
  "UnixAddress p = \<lparr>transport = ''unix'', socket = p\<rparr>"

text \<open>
  Modelled from the spec: \<^verbatim>\<open>nbdutils.UnixAddress.url\<close>, missing from the sources; the spec
  gives the per-disk export identifier as \<^verbatim>\<open>{address}/{drive_name}\<close>.
\<close>

definition url :: "address \<Rightarrow> string \<Rightarrow> string" where
  "url a export = socket a @ ''/'' @ export"

record BackupDrive =
  name :: string
  path :: string
  backup_mode :: "backup_mode option"
  scratch_disk :: "ScratchDiskConfig option"

text \<open>
  The body of the loop of \<^verbatim>\<open>create_backup_xml\<close> for one drive. The first argument is
  \<^verbatim>\<open>storage.disable_dynamic_ownership(scratch, write_type=False)\<close>, which is not part of
  the sources at hand: it updates the scratch element in place, so it is a function from
  the element to the updated element. Reading \<^verbatim>\<open>drive.scratch_disk.type\<close> of a drive
  whose scratch disk is \<^verbatim>\<open>None\<close> raises \<^verbatim>\<open>AttributeError\<close>.
\<close>

definition backup_disk_element ::
  "(xml \<Rightarrow> xml) \<Rightarrow> string option \<Rightarrow> BackupDrive \<Rightarrow> exn + xml" where
  "backup_disk_element disable_dynamic_ownership from_id drive =
     (case scratch_disk drive of
        None \<Rightarrow> Inl AttributeError
      | Some sd \<Rightarrow>
          (let disk = Element ''disk''
                 [(''name'', Some (name drive)), (''type'', Some (disk_type_str (sd_type sd)))]
                 None [];
               disk = (case backup_mode drive of
                         None \<Rightarrow> disk
                       | Some m \<Rightarrow>
                           (let disk = set_attr disk ''backupmode'' (Some (mode_str m))
                            in if m = MODE_INCREMENTAL
                               then set_attr disk (mode_str MODE_INCREMENTAL) from_id
                               else disk));
               scratch = (if sd_type sd = BLOCK
                          then Element ''scratch'' [(''dev'', Some (sd_path sd))] None []
                          else Element ''scratch'' [(''file'', Some (sd_path sd))] None [])
           in Inr (appendChild disk (disable_dynamic_ownership scratch))))"

text \<open>The loop over \<^verbatim>\<open>drives.values()\<close>, appending each disk element to \<open>disks\<close>.\<close>

fun backup_disks_loop ::
  "(xml \<Rightarrow> xml) \<Rightarrow> string option \<Rightarrow> BackupDrive list \<Rightarrow> xml \<Rightarrow> exn + xml" where
  "backup_disks_loop ddo from_id [] disks_elem = Inr disks_elem"
| "backup_disks_loop ddo from_id (drive # rest) disks_elem =
     (case backup_disk_element ddo from_id drive of
        Inl e \<Rightarrow> Inl e
      | Inr disk \<Rightarrow> backup_disks_loop ddo from_id rest (appendChild disks_elem disk))"

text \<open>
  \<^verbatim>\<open>create_backup_xml\<close>. The drives are the Python dict as an association list in
  insertion order, keyed by image id.
\<close>

definition create_backup_xml ::
  "(xml \<Rightarrow> xml) \<Rightarrow> address \<Rightarrow> (string \<times> BackupDrive) list \<Rightarrow> string option \<Rightarrow> exn + xml" where
  "create_backup_xml ddo addr drives from_id =
     (let domainbackup = Element ''domainbackup'' [(''mode'', Some ''pull'')] None [];
          domainbackup =
            (case from_id of
               Some c \<Rightarrow> appendChild domainbackup (appendTextNode (Element ''incremental'' [] None []) c)
             | None \<Rightarrow> domainbackup);
          server = Element ''server''
            [(''transport'', Some (transport addr)), (''socket'', Some (socket addr))] None [];
          domainbackup = appendChild domainbackup server
      in case backup_disks_loop ddo from_id (map snd drives) (Element ''disks'' [] None []) of
           Inl e \<Rightarrow> Inl e
         | Inr disks_elem \<Rightarrow> tostring (appendChild domainbackup disks_elem))"

text \<open>
  The loop of \<^verbatim>\<open>create_checkpoint_xml\<close> over \<^verbatim>\<open>backup_cfg.disks\<close>;
  \<^verbatim>\<open>drives[disk.img_id]\<close> raises \<^verbatim>\<open>KeyError\<close> for an image id that is not a key.
\<close>

fun checkpoint_disks_loop ::
  "string option \<Rightarrow> (string \<times> BackupDrive) list \<Rightarrow> DiskConfig list \<Rightarrow> xml \<Rightarrow> exn + xml" where
  "checkpoint_disks_loop to_id drives [] disks_elem = Inr disks_elem"
| "checkpoint_disks_loop to_id drives (disk # rest) disks_elem =
     (if checkpoint disk
      then (case map_of drives (img_id disk) of
              None \<Rightarrow> Inl (KeyError (img_id disk))
            | Some drive \<Rightarrow>
                checkpoint_disks_loop to_id drives rest
                  (appendChild disks_elem
                     (Element ''disk''
                        [(''name'', Some (name drive)), (''checkpoint'', Some ''bitmap''),
                         (''bitmap'', to_id)] None [])))
      else checkpoint_disks_loop to_id drives rest disks_elem)"

text \<open>
  \<^verbatim>\<open>create_checkpoint_xml\<close>. \<^verbatim>\<open>if backup_cfg.creation_time:\<close> is Python truthiness:
  false for \<^verbatim>\<open>None\<close> and for \<^verbatim>\<open>0\<close>.
\<close>

definition create_checkpoint_xml ::
  "BackupConfig \<Rightarrow> (string \<times> BackupDrive) list \<Rightarrow> exn + xml option" where
  "create_checkpoint_xml backup_cfg drives =
     (case to_checkpoint_id backup_cfg of
        None \<Rightarrow> Inr None
      | Some to_id \<Rightarrow>
          (let cp = Element ''domaincheckpoint'' [] None [];
               cp = appendChild cp (appendTextNode (Element ''name'' [] None []) to_id);
               cp_description = ''checkpoint for backup '' @ [CHR 0x27] @ backup_id backup_cfg @ [CHR 0x27];
               cp = appendChild cp (appendTextNode (Element ''description'' [] None []) cp_description);
               cp = (case parent_checkpoint_id backup_cfg of
                       Some parent \<Rightarrow>
                         appendChild cp
                           (appendChild (Element ''parent'' [] None [])
                              (appendTextNode (Element ''name'' [] None []) parent))
                     | None \<Rightarrow> cp);
               cp = (case creation_time backup_cfg of
                       Some t \<Rightarrow>
                         (if t \<noteq> 0
                          then appendChild cp (appendTextNode (Element ''creationTime'' [] None []) (str t))
                          else cp)
                     | None \<Rightarrow> cp)
           in if disks backup_cfg \<noteq> []
              then (case checkpoint_disks_loop (Some to_id) drives (disks backup_cfg)
                           (Element ''disks'' [] None []) of
                      Inl e \<Rightarrow> Inl e
                    | Inr disks_elem \<Rightarrow> map_sum id Some (tostring (appendChild cp disks_elem)))
              else map_sum id Some (tostring cp)))"

subsection \<open>The world outside: hypervisor, guest agent and storage\<close>

text \<open>
  Every call that backup.py makes on a collaborator is recorded, in order, in a trace.
\<close>

datatype event =
    ListAllCheckpoints
  | BlockInfo string
  | CreateTransientDisk string nat
  | ListTransientDisks
  | RemoveTransientDisk string
  | LogError string
  | Freeze
  | Thaw
  | BackupBegin xml "xml option"
  | AbortJob
  | BackupGetXMLDesc
  | CheckpointLookupByName string
  | CheckpointDelete string
  | CheckpointGetXMLDesc string

text \<open>
  A response of the storage service or of the guest agent: \<^verbatim>\<open>response.is_error\<close> tells
  the two cases apart, \<^verbatim>\<open>res['result']\<close> is the payload of a success.
\<close>

datatype 'a response = ErrorResponse | Result 'a

definition is_error :: "'a response \<Rightarrow> bool" where
  "is_error res = (case res of ErrorResponse \<Rightarrow> True | Result _ \<Rightarrow> False)"

record vm_drive =
  drive_name :: string
  drive_path :: string

text \<open>
  What the collaborators answer: for each call of the hypervisor (\<^verbatim>\<open>dom\<close>), of the VM
  object and of its guest agent either the value returned or the exception raised, and
  for each call of the storage service whether it answers with an error. The record also
  holds the parts of vdsm and libvirt that backup.py uses and that are not part of the
  sources at hand: the constant \<^verbatim>\<open>P_BACKUP\<close>, the helper
  \<^verbatim>\<open>storage.disable_dynamic_ownership\<close>, and what
  \<^verbatim>\<open>getattr(libvirt, "VIR_ERR_CHECKPOINT_INCONSISTENT", None)\<close> yields.
\<close>

record env =
  listAllCheckpoints :: "exn + string list"
  findDriveByUUIDs :: "string \<times> string \<times> string \<Rightarrow> exn + vm_drive"
  blockInfo :: "string \<Rightarrow> exn + nat \<times> nat \<times> nat"
  freeze :: "exn + unit response"
  thaw :: "exn + unit response"
  backupBegin :: "xml \<Rightarrow> xml option \<Rightarrow> exn + unit"
  abortJob :: "exn + unit"
  backupGetXMLDesc :: "exn + string"
  checkpointLookupByName :: "string \<Rightarrow> exn + unit"
  checkpoint_delete :: "string \<Rightarrow> exn + unit"
  checkpoint_getXMLDesc :: "string \<Rightarrow> exn + string"
  list_transient_disks_fails :: bool
  create_transient_disk_fails :: "string \<Rightarrow> nat \<Rightarrow> bool"
  remove_transient_disk_fails :: "string \<Rightarrow> bool"
  transient_disk_path :: "string \<Rightarrow> string"
  P_BACKUP :: string
  disable_dynamic_ownership :: "xml \<Rightarrow> xml"
  getattr_VIR_ERR_CHECKPOINT_INCONSISTENT :: "libvirt_code option"

text \<open>
  The state that the operations change: the transient disks that the storage service has
  registered for this VM, and the trace.
\<close>

record world =
  transient_disks :: "string list"
  trace :: "event list"

subsection \<open>Control flow: exceptions, try/except, try/finally\<close>

type_synonym 'a action = "world \<Rightarrow> (exn + 'a) \<times> world"

definition return_ok :: "'a \<Rightarrow> 'a action" where
  "return_ok v w = (Inr v, w)"

definition raise :: "exn \<Rightarrow> 'a action" where
  "raise e w = (Inl e, w)"

text \<open>A pure computation that may raise.\<close>

definition lift :: "exn + 'a \<Rightarrow> 'a action" where
  "lift r w = (r, w)"

text \<open>Sequencing: an exception of the first statement skips the rest.\<close>

definition and_then :: "'a action \<Rightarrow> ('a \<Rightarrow> 'b action) \<Rightarrow> 'b action" where
  "and_then m f w = (case m w of (Inl e, w') \<Rightarrow> (Inl e, w') | (Inr v, w') \<Rightarrow> f v w')"

text \<open>\<^verbatim>\<open>try: m except: h\<close>; the handler gets the exception.\<close>

definition try_except :: "'a action \<Rightarrow> (exn \<Rightarrow> 'a action) \<Rightarrow> 'a action" where
  "try_except m h w = (case m w of (Inl e, w') \<Rightarrow> h e w' | (Inr v, w') \<Rightarrow> (Inr v, w'))"

text \<open>
  \<^verbatim>\<open>except libvirt.libvirtError as e: h\<close>: only a \<open>libvirtError\<close> is handled, any other
  exception propagates.
\<close>

definition except_libvirtError ::
  "'a action \<Rightarrow> (libvirt_code \<Rightarrow> string \<Rightarrow> 'a action) \<Rightarrow> 'a action" where
  "except_libvirtError m h =
     try_except m (\<lambda>e. case e of libvirtError c msg \<Rightarrow> h c msg | _ \<Rightarrow> raise e)"

text \<open>
  \<^verbatim>\<open>try: m finally: f\<close>: \<open>f\<close> runs whatever \<open>m\<close> did; an exception of \<open>f\<close> replaces the
  outcome of \<open>m\<close>.
\<close>

definition try_finally :: "'a action \<Rightarrow> unit action \<Rightarrow> 'a action" where
  "try_finally m f w =
     (case m w of (r, w1) \<Rightarrow>
        (case f w1 of (Inl e, w2) \<Rightarrow> (Inl e, w2) | (Inr _, w2) \<Rightarrow> (r, w2)))"

text \<open>A call on a collaborator: it is recorded, and returns or raises what \<open>env\<close> says.\<close>

definition call :: "event \<Rightarrow> exn + 'a \<Rightarrow> 'a action" where
  "call ev r w = (r, w\<lparr>trace := trace w @ [ev]\<rparr>)"

subsection \<open>The storage service\<close>

text \<open>
  Modelled from the spec: \<^verbatim>\<open>vm.cif.irs.list_transient_disks\<close>, missing from the sources;
  the spec's storage boundary is list-transient-disks(owner) giving names.
\<close>

definition irs_list_transient_disks :: "env \<Rightarrow> string list response action" where
  "irs_list_transient_disks env w =
     (Inr (if list_transient_disks_fails env then ErrorResponse else Result (transient_disks w)),
      w\<lparr>trace := trace w @ [ListTransientDisks]\<rparr>)"

text \<open>
  Modelled from the spec: \<^verbatim>\<open>vm.cif.irs.create_transient_disk\<close>, missing from the sources;
  the spec's storage boundary is create-transient-disk(owner, name, size) giving a path or
  an error. A creation that succeeds registers the disk.
\<close>

definition irs_create_transient_disk :: "env \<Rightarrow> string \<Rightarrow> nat \<Rightarrow> string response action" where
  "irs_create_transient_disk env disk_name sz w =
     (if create_transient_disk_fails env disk_name sz
      then (Inr ErrorResponse, w\<lparr>trace := trace w @ [CreateTransientDisk disk_name sz]\<rparr>)
      else (Inr (Result (transient_disk_path env disk_name)),
            w\<lparr>transient_disks := transient_disks w @ [disk_name],
              trace := trace w @ [CreateTransientDisk disk_name sz]\<rparr>))"

text \<open>
  Modelled from the spec: \<^verbatim>\<open>vm.cif.irs.remove_transient_disk\<close>, missing from the sources;
  the spec's storage boundary is remove-transient-disk(owner, name) giving an ack or an
  error. A removal that succeeds unregisters the disk, one that fails leaves it.
\<close>

definition irs_remove_transient_disk :: "env \<Rightarrow> string \<Rightarrow> unit response action" where
  "irs_remove_transient_disk env disk_name w =
     (if remove_transient_disk_fails env disk_name
      then (Inr ErrorResponse, w\<lparr>trace := trace w @ [RemoveTransientDisk disk_name]\<rparr>)
      else (Inr (Result ()),
            w\<lparr>transient_disks := removeAll disk_name (transient_disks w),
              trace := trace w @ [RemoveTransientDisk disk_name]\<rparr>))"

subsection \<open>Scratch disks\<close>

text \<open>The loop of \<^verbatim>\<open>_remove_scratch_disks\<close> over \<^verbatim>\<open>res['result']\<close>.\<close>

fun remove_loop :: "env \<Rightarrow> string list \<Rightarrow> unit action" where
  "remove_loop env [] = return_ok ()"
| "remove_loop env (disk_name # rest) =
     and_then (irs_remove_transient_disk env disk_name) (\<lambda>res.
     and_then (if is_error res then call (LogError disk_name) (Inr ()) else return_ok ()) (\<lambda>_.
     remove_loop env rest))"

text \<open>\<^verbatim>\<open>_remove_scratch_disks\<close>.\<close>

definition remove_scratch_disks :: "env \<Rightarrow> string \<Rightarrow> unit action" where
  "remove_scratch_disks env bid =
     and_then (irs_list_transient_disks env) (\<lambda>res.
       case res of
         ErrorResponse \<Rightarrow> raise (BackupError ''Failed to fetch scratch disks'')
       | Result names \<Rightarrow> remove_loop env names)"

text \<open>\<^verbatim>\<open>_get_drive_capacity\<close>: the first component of \<^verbatim>\<open>dom.blockInfo(drive.path)\<close>.\<close>

definition get_drive_capacity :: "env \<Rightarrow> BackupDrive \<Rightarrow> nat action" where
  "get_drive_capacity env drive =
     except_libvirtError
       (and_then (call (BlockInfo (path drive)) (blockInfo env (path drive)))
          (\<lambda>info. return_ok (fst info)))
       (\<lambda>c msg. raise (BackupError ''Failed to get drive capacity''))"

text \<open>\<^verbatim>\<open>_create_transient_disk\<close>.\<close>

definition create_transient_disk :: "env \<Rightarrow> string \<Rightarrow> BackupDrive \<Rightarrow> string action" where
  "create_transient_disk env bid drive =
     (let disk_name = bid @ ''.'' @ name drive in
      and_then (get_drive_capacity env drive) (\<lambda>drive_size.
      and_then (irs_create_transient_disk env disk_name drive_size) (\<lambda>res.
        case res of
          ErrorResponse \<Rightarrow> raise (BackupError ''Failed to create transient disk'')
        | Result p \<Rightarrow> return_ok p)))"

text \<open>
  \<^verbatim>\<open>_create_scratch_disks\<close>: the loop over \<^verbatim>\<open>drives.values()\<close>. Python assigns
  \<^verbatim>\<open>drive.scratch_disk\<close> in place; here the updated drives are returned.
\<close>

fun create_scratch_disks ::
  "env \<Rightarrow> string \<Rightarrow> (string \<times> BackupDrive) list \<Rightarrow> (string \<times> BackupDrive) list action" where
  "create_scratch_disks env bid [] = return_ok []"
| "create_scratch_disks env bid (kd # rest) =
     (if scratch_disk (snd kd) \<noteq> None
      then and_then (create_scratch_disks env bid rest) (\<lambda>rest'. return_ok (kd # rest'))
      else
        and_then
          (try_except (create_transient_disk env bid (snd kd))
             (\<lambda>e. and_then (remove_scratch_disks env bid) (\<lambda>_. raise e)))
          (\<lambda>p.
        and_then (create_scratch_disks env bid rest) (\<lambda>rest'.
          return_ok
            ((fst kd, (snd kd)\<lparr>scratch_disk := Some \<lparr>sd_path = p, sd_type = FILE\<rparr>\<rparr>) # rest'))))"

subsection \<open>Session orchestrator\<close>

text \<open>\<^verbatim>\<open>_get_leaf_checkpoint_name\<close>: the last name of the topological listing, if any.\<close>

definition get_leaf_checkpoint_name :: "env \<Rightarrow> string option action" where
  "get_leaf_checkpoint_name env =
     except_libvirtError
       (and_then (call ListAllCheckpoints (listAllCheckpoints env))
          (\<lambda>checkpoints. return_ok (if checkpoints \<noteq> [] then Some (last checkpoints) else None)))
       (\<lambda>c msg. raise (CheckpointError ''Failed to fetch defined leaf checkpoint''))"

text \<open>\<^verbatim>\<open>_validate_parent_id\<close>.\<close>

definition validate_parent_id :: "env \<Rightarrow> BackupConfig \<Rightarrow> unit action" where
  "validate_parent_id env backup_cfg =
     (if to_checkpoint_id backup_cfg = None then return_ok ()
      else
        and_then (get_leaf_checkpoint_name env) (\<lambda>leaf_checkpoint_id.
          if parent_checkpoint_id backup_cfg \<noteq> leaf_checkpoint_id
          then raise (CheckpointError ''Parent checkpoint ID does not match the actual leaf checkpoint'')
          else return_ok ()))"

text \<open>
  The loop of \<^verbatim>\<open>_get_disks_drives\<close>; \<^verbatim>\<open>drives[disk.img_id] = ...\<close> is the update of a
  dict, which keeps the position of a key that is already there.
\<close>

fun get_disks_drives_loop ::
  "env \<Rightarrow> DiskConfig list \<Rightarrow> (string \<times> BackupDrive) list \<Rightarrow> exn + (string \<times> BackupDrive) list" where
  "get_disks_drives_loop env [] drives = Inr drives"
| "get_disks_drives_loop env (disk # rest) drives =
     (case findDriveByUUIDs env (dom_id disk, img_id disk, vol_id disk) of
        Inl e \<Rightarrow> Inl e
      | Inr drive \<Rightarrow>
          get_disks_drives_loop env rest
            (AList.update (img_id disk)
               \<lparr>name = drive_name drive, path = drive_path drive,
                backup_mode = disk_backup_mode disk, scratch_disk = disk_scratch_disk disk\<rparr>
               drives))"

text \<open>
  \<^verbatim>\<open>_get_disks_drives\<close>: a \<^verbatim>\<open>LookupError\<close>, of which \<^verbatim>\<open>KeyError\<close> is a subclass, becomes a
  \<^verbatim>\<open>BackupError\<close>.
\<close>

definition get_disks_drives :: "env \<Rightarrow> BackupConfig \<Rightarrow> exn + (string \<times> BackupDrive) list" where
  "get_disks_drives env backup_cfg =
     (case get_disks_drives_loop env (disks backup_cfg) [] of
        Inl (LookupError msg) \<Rightarrow> Inl (BackupError ''Failed to find one of the backup disks'')
      | Inl (KeyError k) \<Rightarrow> Inl (BackupError ''Failed to find one of the backup disks'')
      | r \<Rightarrow> r)"

text \<open>\<^verbatim>\<open>os.path.join\<close> of two components, as \<^verbatim>\<open>posixpath\<close> has it.\<close>

definition os_path_join :: "string \<Rightarrow> string \<Rightarrow> string" where
  "os_path_join a b =
     (if b \<noteq> [] \<and> hd b = CHR ''/'' then b
      else if a = [] \<or> last a = CHR ''/'' then a @ b
      else a @ ''/'' @ b)"

definition socket_path :: "env \<Rightarrow> string \<Rightarrow> string" where
  "socket_path env bid = os_path_join (P_BACKUP env) bid"

text \<open>\<^verbatim>\<open>_begin_backup\<close>.\<close>

definition begin_backup :: "env \<Rightarrow> BackupConfig \<Rightarrow> xml \<Rightarrow> xml option \<Rightarrow> unit action" where
  "begin_backup env backup_cfg backup_xml checkpoint_xml =
     except_libvirtError
       (call (BackupBegin backup_xml checkpoint_xml) (backupBegin env backup_xml checkpoint_xml))
       (\<lambda>c msg.
          if Some c = getattr_VIR_ERR_CHECKPOINT_INCONSISTENT env
          then raise (InconsistentCheckpointError ''Checkpoint can't be used'')
          else raise (BackupError ''Error starting backup''))"

record backup_result =
  result_disks :: "(string \<times> string) list"
  result_checkpoint :: "string option"

text \<open>
  \<^verbatim>\<open>_add_checkpoint_xml\<close>: a \<open>libvirtError\<close> of the lookup or of the dump is logged and
  leaves the result without the checkpoint.
\<close>

definition add_checkpoint_xml :: "env \<Rightarrow> string \<Rightarrow> string \<Rightarrow> backup_result \<Rightarrow> backup_result action" where
  "add_checkpoint_xml env bid checkpoint_id result =
     except_libvirtError
       (and_then (call (CheckpointLookupByName checkpoint_id) (checkpointLookupByName env checkpoint_id)) (\<lambda>_.
        and_then (call (CheckpointGetXMLDesc checkpoint_id) (checkpoint_getXMLDesc env checkpoint_id)) (\<lambda>x.
        return_ok (result\<lparr>result_checkpoint := Some x\<rparr>))))
       (\<lambda>c msg. return_ok result)"

text \<open>The body of the \<^verbatim>\<open>try\<close> block of \<^verbatim>\<open>start_backup\<close>.\<close>

definition freeze_and_begin ::
  "env \<Rightarrow> BackupConfig \<Rightarrow> address \<Rightarrow> (string \<times> BackupDrive) list \<Rightarrow> unit action" where
  "freeze_and_begin env backup_cfg nbd_addr drives =
     and_then (call Freeze (freeze env)) (\<lambda>res.
       if is_error res \<and> require_consistency backup_cfg = Some True
       then raise (BackupError ''Failed freeze VM'')
       else
         and_then (lift (create_backup_xml (disable_dynamic_ownership env) nbd_addr drives
                           (from_checkpoint_id backup_cfg))) (\<lambda>backup_xml.
         and_then (lift (create_checkpoint_xml backup_cfg drives)) (\<lambda>checkpoint_xml.
         begin_backup env backup_cfg backup_xml checkpoint_xml)))"

text \<open>
  The \<^verbatim>\<open>try\<close> statement of \<^verbatim>\<open>start_backup\<close>: the bare \<^verbatim>\<open>except:\<close> removes the scratch
  disks and raises the exception again, the \<^verbatim>\<open>finally:\<close> thaws.
\<close>

definition backup_session ::
  "env \<Rightarrow> BackupConfig \<Rightarrow> address \<Rightarrow> (string \<times> BackupDrive) list \<Rightarrow> unit action" where
  "backup_session env backup_cfg nbd_addr drives =
     try_finally
       (try_except (freeze_and_begin env backup_cfg nbd_addr drives)
          (\<lambda>e. and_then (remove_scratch_disks env (backup_id backup_cfg)) (\<lambda>_. raise e)))
       (and_then (call Thaw (thaw env)) (\<lambda>_. return_ok ()))"

text \<open>\<^verbatim>\<open>start_backup\<close>.\<close>

definition start_backup :: "env \<Rightarrow> backup_config_dict \<Rightarrow> backup_result action" where
  "start_backup env config =
     and_then (lift (BackupConfig_init config)) (\<lambda>backup_cfg.
       if disks backup_cfg = [] then raise (BackupError ''Cannot start a backup without disks'')
       else
         and_then (validate_parent_id env backup_cfg) (\<lambda>_.
         and_then (lift (get_disks_drives env backup_cfg)) (\<lambda>drives.
         (let nbd_addr = UnixAddress (socket_path env (backup_id backup_cfg)) in
          and_then (create_scratch_disks env (backup_id backup_cfg) drives) (\<lambda>drives.
          and_then (backup_session env backup_cfg nbd_addr drives) (\<lambda>_.
          (let disks_urls = map (\<lambda>kd. (fst kd, url nbd_addr (name (snd kd)))) drives;
               result = \<lparr>result_disks = disks_urls, result_checkpoint = None\<rparr>
           in case to_checkpoint_id backup_cfg of
                Some to_id \<Rightarrow> add_checkpoint_xml env (backup_id backup_cfg) to_id result
              | None \<Rightarrow> return_ok result)))))))"

text \<open>\<^verbatim>\<open>_get_backup_xml\<close>.\<close>

definition get_backup_xml :: "env \<Rightarrow> string \<Rightarrow> string action" where
  "get_backup_xml env bid =
     except_libvirtError (call BackupGetXMLDesc (backupGetXMLDesc env))
       (\<lambda>c msg.
          if c = VIR_ERR_NO_DOMAIN_BACKUP
          then raise (NoSuchBackupError ''VM backup not exists'')
          else raise (BackupError ''Failed to fetch VM backup info''))"

text \<open>\<^verbatim>\<open>_backup_exists\<close>.\<close>

definition backup_exists :: "env \<Rightarrow> string \<Rightarrow> bool action" where
  "backup_exists env bid =
     try_except (and_then (get_backup_xml env bid) (\<lambda>_. return_ok True))
       (\<lambda>e. case e of
               NoSuchBackupError r \<Rightarrow> return_ok False
             | NotConnectedError \<Rightarrow> return_ok False
             | _ \<Rightarrow> raise e)"

text \<open>\<^verbatim>\<open>stop_backup\<close>.\<close>

definition stop_backup :: "env \<Rightarrow> string \<Rightarrow> unit action" where
  "stop_backup env bid =
     and_then (backup_exists env bid) (\<lambda>ex.
     and_then
       (if ex
        then except_libvirtError (call AbortJob (abortJob env))
               (\<lambda>c msg.
                  if c \<noteq> VIR_ERR_OPERATION_INVALID
                  then raise (BackupError ''Failed to end VM backup'')
                  else return_ok ())
        else return_ok ()) (\<lambda>_.
     remove_scratch_disks env bid))"

subsection \<open>Checkpoint chain manager\<close>

record delete_result =
  checkpoint_ids :: "string list"
  error :: "(libvirt_code \<times> string) option"

text \<open>
  The \<^verbatim>\<open>try\<close> statement of the loop of \<^verbatim>\<open>delete_checkpoints\<close> for one id: \<open>None\<close> when
  the loop goes on (the checkpoint was deleted, or was not there), the code and message
  of the error when the handler returns from the function.
\<close>

definition delete_one :: "env \<Rightarrow> string \<Rightarrow> (libvirt_code \<times> string) option action" where
  "delete_one env checkpoint_id =
     except_libvirtError
       (and_then (call (CheckpointLookupByName checkpoint_id) (checkpointLookupByName env checkpoint_id)) (\<lambda>_.
        and_then (call (CheckpointDelete checkpoint_id) (checkpoint_delete env checkpoint_id)) (\<lambda>_.
        return_ok None)))
       (\<lambda>c msg. if c = VIR_ERR_NO_DOMAIN_CHECKPOINT then return_ok None else return_ok (Some (c, msg)))"

text \<open>The loop of \<^verbatim>\<open>delete_checkpoints\<close>, with \<^verbatim>\<open>deleted_checkpoint_ids\<close> so far.\<close>

fun delete_loop :: "env \<Rightarrow> string list \<Rightarrow> string list \<Rightarrow> delete_result action" where
  "delete_loop env deleted_checkpoint_ids [] =
     return_ok \<lparr>checkpoint_ids = deleted_checkpoint_ids, error = None\<rparr>"
| "delete_loop env deleted_checkpoint_ids (checkpoint_id # rest) =
     and_then (delete_one env checkpoint_id) (\<lambda>r.
       case r of
         Some err \<Rightarrow> return_ok \<lparr>checkpoint_ids = deleted_checkpoint_ids, error = Some err\<rparr>
       | None \<Rightarrow> delete_loop env (deleted_checkpoint_ids @ [checkpoint_id]) rest)"

text \<open>\<^verbatim>\<open>delete_checkpoints\<close>.\<close>

definition delete_checkpoints :: "env \<Rightarrow> string list \<Rightarrow> delete_result action" where
  "delete_checkpoints env ids = delete_loop env [] ids"

subsection \<open>Notions used to state the properties\<close>

text \<open>The calls made between two states of the world.\<close>

definition new_events :: "world \<Rightarrow> world \<Rightarrow> event list" where
  "new_events w w' = drop (length (trace w)) (trace w')"

text \<open>What the loop of \<^verbatim>\<open>_remove_scratch_disks\<close> is expected to do for a listing: one removal call per
  name, in order, each failed removal followed by its \<^verbatim>\<open>log.error\<close> and by the next removal.\<close>

definition removal_events :: "env \<Rightarrow> string list \<Rightarrow> event list" where
  "removal_events env names =
     concat (map (\<lambda>n. if remove_transient_disk_fails env n
                       then [RemoveTransientDisk n, LogError n]
                       else [RemoveTransientDisk n]) names)"

text \<open>A drive for which the engine provided no scratch disk.\<close>

definition lacks_scratch_disk :: "BackupDrive \<Rightarrow> bool" where
  "lacks_scratch_disk drive = (scratch_disk drive = None)"

text \<open>The name \<^verbatim>\<open>"{}.{}".format(backup_id, drive.name)\<close> of the scratch disk of a drive.\<close>

definition transient_disk_name :: "string \<Rightarrow> BackupDrive \<Rightarrow> string" where
  "transient_disk_name bid drive = bid @ ''.'' @ name drive"

text \<open>The calls expected for one drive without a scratch disk: the block-info call, and a creation
  sized to the first component of its answer, the capacity (the other two are the
  allocation and the physical size).\<close>

definition expected_creation :: "env \<Rightarrow> string \<Rightarrow> BackupDrive \<Rightarrow> event list" where
  "expected_creation env bid drive =
     (case blockInfo env (path drive) of
        Inr (capacity, allocation, physical) \<Rightarrow>
          [BlockInfo (path drive), CreateTransientDisk (transient_disk_name bid drive) capacity]
      | Inl e \<Rightarrow> [BlockInfo (path drive)])"

text \<open>The drive once \<^verbatim>\<open>_create_scratch_disks\<close> is done with it.\<close>

definition with_scratch_disk :: "env \<Rightarrow> string \<Rightarrow> BackupDrive \<Rightarrow> BackupDrive" where
  "with_scratch_disk env bid drive =
     (if scratch_disk drive = None
      then drive\<lparr>scratch_disk :=
             Some \<lparr>sd_path = transient_disk_path env (transient_disk_name bid drive), sd_type = FILE\<rparr>\<rparr>
      else drive)"

text \<open>The block-info call answers and the storage service creates the disk.\<close>

definition creation_succeeds :: "env \<Rightarrow> string \<Rightarrow> BackupDrive \<Rightarrow> bool" where
  "creation_succeeds env bid drive =
     (case blockInfo env (path drive) of
        Inr (capacity, allocation, physical) \<Rightarrow>
          \<not> create_transient_disk_fails env (transient_disk_name bid drive) capacity
      | Inl e \<Rightarrow> False)"

text \<open>The state after the rollback of a failed creation, \<open>registered\<close> being the transient
  disks of the VM when the rollback starts: if the listing fails nothing is removed and the
  listing's error is what propagates; otherwise a removal was requested for every
  registered disk, and the disks left are those whose removal failed.\<close>

definition rolled_back :: "env \<Rightarrow> string list \<Rightarrow> exn \<Rightarrow> world \<Rightarrow> bool" where
  "rolled_back env registered e w' =
     (if list_transient_disks_fails env
      then e = BackupError ''Failed to fetch scratch disks'' \<and>
           transient_disks w' = registered \<and>
           (\<exists>pre. trace w' = pre @ [ListTransientDisks])
      else transient_disks w' = filter (remove_transient_disk_fails env) registered \<and>
           (\<exists>pre. trace w' = pre @ ListTransientDisks # removal_events env registered))"

text \<open>An action only appends to the trace, and only events that satisfy \<open>P\<close>.\<close>

definition emits :: "(event \<Rightarrow> bool) \<Rightarrow> 'a action \<Rightarrow> bool" where
  "emits P m = (\<forall>w. \<exists>evs. trace (snd (m w)) = trace w @ evs \<and> list_all P evs)"

text \<open>Any call but freeze and thaw.\<close>

definition quiet :: "event \<Rightarrow> bool" where
  "quiet ev = (ev \<noteq> Freeze \<and> ev \<noteq> Thaw)"

text \<open>The two calls of \<^verbatim>\<open>_add_checkpoint_xml\<close>.\<close>

definition checkpoint_read :: "event \<Rightarrow> bool" where
  "checkpoint_read ev =
     (case ev of CheckpointLookupByName c \<Rightarrow> True | CheckpointGetXMLDesc c \<Rightarrow> True | _ \<Rightarrow> False)"

text \<open>The leaf of a topological listing: its last name, if any.\<close>

definition leaf_name :: "string list \<Rightarrow> string option" where
  "leaf_name checkpoints = (if checkpoints = [] then None else Some (last checkpoints))"

text \<open>Deleting the checkpoint succeeds, or the hypervisor reports that it does not exist.\<close>

definition deleted_or_absent :: "env \<Rightarrow> string \<Rightarrow> bool" where
  "deleted_or_absent env cid =
     ((checkpointLookupByName env cid = Inr () \<and> checkpoint_delete env cid = Inr ()) \<or>
      (\<exists>msg. checkpointLookupByName env cid = Inl (libvirtError VIR_ERR_NO_DOMAIN_CHECKPOINT msg)) \<or>
      (checkpointLookupByName env cid = Inr () \<and>
       (\<exists>msg. checkpoint_delete env cid = Inl (libvirtError VIR_ERR_NO_DOMAIN_CHECKPOINT msg))))"

text \<open>Deleting the checkpoint fails with a hypervisor error other than ``no such checkpoint''.\<close>

definition fails_hard :: "env \<Rightarrow> string \<Rightarrow> libvirt_code \<Rightarrow> string \<Rightarrow> bool" where
  "fails_hard env cid c msg =
     (c \<noteq> VIR_ERR_NO_DOMAIN_CHECKPOINT \<and>
      (checkpointLookupByName env cid = Inl (libvirtError c msg) \<or>
       (checkpointLookupByName env cid = Inr () \<and>
        checkpoint_delete env cid = Inl (libvirtError c msg))))"

text \<open>The calls of one round of the loop of \<^verbatim>\<open>delete_checkpoints\<close>.\<close>

definition delete_events :: "env \<Rightarrow> string \<Rightarrow> event list" where
  "delete_events env cid =
     (case checkpointLookupByName env cid of
        Inl e \<Rightarrow> [CheckpointLookupByName cid]
      | Inr h \<Rightarrow> [CheckpointLookupByName cid, CheckpointDelete cid])"

text \<open>The exception is a \<^verbatim>\<open>libvirt.libvirtError\<close>.\<close>

definition is_libvirtError :: "exn \<Rightarrow> bool" where
  "is_libvirtError e = (case e of libvirtError c msg \<Rightarrow> True | _ \<Rightarrow> False)"

text \<open>The hypervisor calls for this checkpoint raise nothing but \<^verbatim>\<open>libvirtError\<close>.\<close>

definition raises_only_libvirtError :: "env \<Rightarrow> string \<Rightarrow> bool" where
  "raises_only_libvirtError env cid =
     ((case checkpointLookupByName env cid of Inl e \<Rightarrow> is_libvirtError e | Inr h \<Rightarrow> True) \<and>
      (case checkpoint_delete env cid of Inl e \<Rightarrow> is_libvirtError e | Inr u \<Rightarrow> True))"

text \<open>
  Deleting the checkpoint raises \<open>e\<close>, an exception that is not a \<^verbatim>\<open>libvirtError\<close>, such as the
  \<^verbatim>\<open>NotConnectedError\<close> of a domain that is not connected.
\<close>

definition raises_other :: "env \<Rightarrow> string \<Rightarrow> exn \<Rightarrow> bool" where
  "raises_other env cid e =
     (\<not> is_libvirtError e \<and>
      (checkpointLookupByName env cid = Inl e \<or>
       (checkpointLookupByName env cid = Inr () \<and> checkpoint_delete env cid = Inl e)))"

text \<open>The scratch element of a disk entry, before \<^verbatim>\<open>disable_dynamic_ownership\<close>: a block scratch
  disk is referenced by \<^verbatim>\<open>dev\<close>, a file one by \<^verbatim>\<open>file\<close>.\<close>

definition scratch_element :: "ScratchDiskConfig \<Rightarrow> xml" where
  "scratch_element sd =
     Element ''scratch'' [(if sd_type sd = BLOCK then ''dev'' else ''file'', Some (sd_path sd))] None []"

text \<open>What the spec asks of the entry of a drive in the backup descriptor: it names the drive;
  it has a \<^verbatim>\<open>backupmode\<close> exactly when the drive has a backup mode, and then that mode; it
  has the \<^verbatim>\<open>incremental\<close> attribute, holding the checkpoint to diff from, exactly when the
  mode is incremental; its only child is the scratch element of the drive's scratch disk.\<close>

definition describes :: "(xml \<Rightarrow> xml) \<Rightarrow> string option \<Rightarrow> BackupDrive \<Rightarrow> xml \<Rightarrow> bool" where
  "describes ddo from_id drive entry =
     (xml_tag entry = ''disk'' \<and>
      map_of (xml_attrs entry) ''name'' = Some (Some (name drive)) \<and>
      map_of (xml_attrs entry) ''backupmode'' =
        map_option (\<lambda>m. Some (mode_str m)) (backup_mode drive) \<and>
      map_of (xml_attrs entry) ''incremental'' =
        (if backup_mode drive = Some MODE_INCREMENTAL then Some from_id else None) \<and>
      (\<exists>sd. scratch_disk drive = Some sd \<and>
            map_of (xml_attrs entry) ''type'' = Some (Some (disk_type_str (sd_type sd))) \<and>
            xml_children entry = [ddo (scratch_element sd)]))"

subsection \<open>Concrete instances\<close>

text \<open>A world in which every collaborator answers and nothing fails: two checkpoints,
  \<^verbatim>\<open>cp1\<close> the leaf; a drive is named after its image id; a drive has a capacity of 100,
  of which 40 are allocated.\<close>

definition happy_env :: env where
  "happy_env =
     \<lparr>listAllCheckpoints = Inr [''cp0'', ''cp1''],
      findDriveByUUIDs = (\<lambda>k. Inr \<lparr>drive_name = fst (snd k), drive_path = ''/dev/'' @ fst (snd k)\<rparr>),
      blockInfo = (\<lambda>p. Inr (100, 40, 50)),
      freeze = Inr (Result ()),
      thaw = Inr (Result ()),
      backupBegin = (\<lambda>b c. Inr ()),
      abortJob = Inr (),
      backupGetXMLDesc = Inr ''<domainbackup/>'',
      checkpointLookupByName = (\<lambda>c. Inr ()),
      checkpoint_delete = (\<lambda>c. Inr ()),
      checkpoint_getXMLDesc = (\<lambda>c. Inr ''<domaincheckpoint/>''),
      list_transient_disks_fails = False,
      create_transient_disk_fails = (\<lambda>n s. False),
      remove_transient_disk_fails = (\<lambda>n. False),
      transient_disk_path = (\<lambda>n. ''/var/tmp/'' @ n),
      P_BACKUP = ''/run/vdsm/backup'',
      disable_dynamic_ownership = (\<lambda>e. appendChild e (Element ''seclabel'' [] None [])),
      getattr_VIR_ERR_CHECKPOINT_INCONSISTENT = Some VIR_ERR_CHECKPOINT_INCONSISTENT\<rparr>"

text \<open>The VM has no transient disk and no call was made yet.\<close>

definition fresh_world :: world where
  "fresh_world = \<lparr>transient_disks = [], trace = []\<rparr>"

text \<open>A disk that asks for an incremental backup and has no scratch disk yet.\<close>

definition disk_vda :: disk_dict where
  "disk_vda = \<lparr>k_volumeID = ''vol-a'', k_imageID = ''vda'', k_domainID = ''dom-1'',
      k_checkpoint = True, k_backup_mode = Some MODE_INCREMENTAL, k_scratch_disk = None\<rparr>"

text \<open>A request that continues the chain from \<^verbatim>\<open>cp1\<close>, names \<^verbatim>\<open>cp0\<close> as the parent, and
  creates no checkpoint.\<close>

definition unchecked_config :: backup_config_dict where
  "unchecked_config =
     \<lparr>k_backup_id = ''b1'', k_from_checkpoint_id = Some ''cp1'', k_to_checkpoint_id = None,
      k_parent_checkpoint_id = Some ''cp0'', k_require_consistency = Some True,
      k_creation_time = None, k_disks = [disk_vda]\<rparr>"

text \<open>The same request, creating the checkpoint \<^verbatim>\<open>cp2\<close>.\<close>

definition mismatched_config :: backup_config_dict where
  "mismatched_config = unchecked_config\<lparr>k_to_checkpoint_id := Some ''cp2''\<rparr>"

text \<open>The same request without a parent checkpoint.\<close>

definition orphan_config :: backup_config_dict where
  "orphan_config = unchecked_config\<lparr>k_parent_checkpoint_id := None\<rparr>"

text \<open>Three resolved drives: two without a scratch disk, and one for which the engine provided
  a block scratch disk.\<close>

definition drive_vda :: BackupDrive where
  "drive_vda = \<lparr>name = ''vda'', path = ''/dev/vda'', backup_mode = Some MODE_FULL, scratch_disk = None\<rparr>"

definition drive_sdb :: BackupDrive where
  "drive_sdb = \<lparr>name = ''sdb'', path = ''/dev/sdb'', backup_mode = Some MODE_INCREMENTAL,
      scratch_disk = None\<rparr>"

definition drive_sdc :: BackupDrive where
  "drive_sdc = \<lparr>name = ''sdc'', path = ''/dev/sdc'', backup_mode = None,
      scratch_disk = Some \<lparr>sd_path = ''/dev/vg/scratch-sdc'', sd_type = BLOCK\<rparr>\<rparr>"

definition three_drives :: "(string \<times> BackupDrive) list" where
  "three_drives = [(''img-a'', drive_vda), (''img-c'', drive_sdc), (''img-b'', drive_sdb)]"

text \<open>The storage service refuses to create the scratch disk of \<^verbatim>\<open>sdb\<close>.\<close>

definition second_creation_fails_env :: env where
  "second_creation_fails_env = happy_env\<lparr>create_transient_disk_fails := (\<lambda>n s. n = ''b1.sdb'')\<rparr>"

text \<open>Moreover it fails to remove the scratch disk of \<^verbatim>\<open>vda\<close>.\<close>

definition stuck_disk_env :: env where
  "stuck_disk_env =
     second_creation_fails_env\<lparr>remove_transient_disk_fails := (\<lambda>n. n = ''b1.vda'')\<rparr>"

text \<open>The hypervisor refuses to begin the backup.\<close>

definition begin_fails_env :: env where
  "begin_fails_env =
     happy_env\<lparr>backupBegin := (\<lambda>b c. Inl (libvirtError (VIR_ERR_OTHER 1) ''internal error''))\<rparr>"

text \<open>A full backup of one disk that creates no checkpoint.\<close>

definition full_config :: backup_config_dict where
  "full_config =
     \<lparr>k_backup_id = ''b1'', k_from_checkpoint_id = None, k_to_checkpoint_id = None,
      k_parent_checkpoint_id = None, k_require_consistency = Some True,
      k_creation_time = None, k_disks = [disk_vda\<lparr>k_backup_mode := Some MODE_FULL\<rparr>]\<rparr>"

text \<open>A backup is running and the hypervisor fails to abort it.\<close>

definition abort_fails_env :: env where
  "abort_fails_env = happy_env\<lparr>abortJob := Inl (libvirtError (VIR_ERR_OTHER 1) ''internal error'')\<rparr>"

text \<open>No backup is running.\<close>

definition no_backup_env :: env where
  "no_backup_env =
     happy_env\<lparr>backupGetXMLDesc := Inl (libvirtError VIR_ERR_NO_DOMAIN_BACKUP ''no backup'')\<rparr>"

text \<open>The VM has one transient disk.\<close>

definition world_with_disk :: world where
  "world_with_disk = \<lparr>transient_disks = [''b1.vda''], trace = []\<rparr>"

text \<open>Checkpoint \<^verbatim>\<open>a\<close> is already gone and deleting checkpoint \<^verbatim>\<open>b\<close> fails.\<close>

definition delete_b_fails_env :: env where
  "delete_b_fails_env =
     happy_env\<lparr>checkpointLookupByName :=
                  (\<lambda>c. if c = ''a'' then Inl (libvirtError VIR_ERR_NO_DOMAIN_CHECKPOINT ''not found'')
                       else Inr ()),
               checkpoint_delete :=
                  (\<lambda>c. if c = ''b'' then Inl (libvirtError (VIR_ERR_OTHER 1) ''internal error'')
                       else Inr ())\<rparr>"

text \<open>The domain is found disconnected when checkpoint \<^verbatim>\<open>b\<close> is looked up.\<close>

definition disconnected_at_b_env :: env where
  "disconnected_at_b_env =
     happy_env\<lparr>checkpointLookupByName :=
                  (\<lambda>c. if c = ''b'' then Inl NotConnectedError else Inr ())\<rparr>"

text \<open>No backup is running and the storage service fails to list the transient disks.\<close>

definition listing_fails_env :: env where
  "listing_fails_env = no_backup_env\<lparr>list_transient_disks_fails := True\<rparr>"

text \<open>Two drives with their scratch disks: a full backup onto a file, an incremental backup
  onto a block device.\<close>

definition two_drives :: "(string \<times> BackupDrive) list" where
  "two_drives =
     [(''img-a'', \<lparr>name = ''vda'', path = ''/dev/vda'', backup_mode = Some MODE_FULL,
                   scratch_disk = Some \<lparr>sd_path = ''/var/tmp/b1.vda'', sd_type = FILE\<rparr>\<rparr>),
      (''img-b'', \<lparr>name = ''sdb'', path = ''/dev/sdb'', backup_mode = Some MODE_INCREMENTAL,
                   scratch_disk = Some \<lparr>sd_path = ''/dev/vg/scratch-sdb'', sd_type = BLOCK\<rparr>\<rparr>)]"

text \<open>A stand-in for \<^verbatim>\<open>storage.disable_dynamic_ownership\<close>: it appends a child.\<close>

definition seclabel :: "xml \<Rightarrow> xml" where
  "seclabel e = appendChild e (Element ''seclabel'' [(''model'', Some ''dac'')] None [])"

text \<open>A request that creates a checkpoint with the creation time 0.\<close>

definition epoch_config :: backup_config_dict where
  "epoch_config =
     \<lparr>k_backup_id = ''b1'', k_from_checkpoint_id = None, k_to_checkpoint_id = Some ''cp1'',
      k_parent_checkpoint_id = None, k_require_consistency = None,
      k_creation_time = Some 0, k_disks = []\<rparr>"

subsection \<open>The checkpoint descriptor\<close>

text \<open>
  The entry of a disk in the checkpoint descriptor: it names the drive that the disk's image
  resolves to, and tracks it with a bitmap named after the checkpoint.
\<close>

definition bitmap_entry :: "string \<Rightarrow> (string \<times> BackupDrive) list \<Rightarrow> DiskConfig \<Rightarrow> xml \<Rightarrow> bool" where
  "bitmap_entry to_id drives disk entry =
     (\<exists>drive. map_of drives (img_id disk) = Some drive \<and>
        entry = Element ''disk''
                  [(''name'', Some (name drive)), (''checkpoint'', Some ''bitmap''),
                   (''bitmap'', Some to_id)] None [])"

text \<open>
  The children of the checkpoint descriptor before the disks: the name, the description with
  the backup id, the parent when there is one, and the creation time when it is set and not
  0.
\<close>

definition checkpoint_head :: "BackupConfig \<Rightarrow> string \<Rightarrow> xml list" where
  "checkpoint_head cfg to_id =
     [Element ''name'' [] (Some to_id) [],
      Element ''description'' []
        (Some (''checkpoint for backup '' @ [CHR 0x27] @ backup_id cfg @ [CHR 0x27])) []] @
     (case parent_checkpoint_id cfg of
        Some parent \<Rightarrow> [Element ''parent'' [] None [Element ''name'' [] (Some parent) []]]
      | None \<Rightarrow> []) @
     (case creation_time cfg of
        Some t \<Rightarrow> if t \<noteq> 0 then [Element ''creationTime'' [] (Some (str t)) []] else []
      | None \<Rightarrow> [])"

text \<open>
  A request that creates the checkpoint \<^verbatim>\<open>cp2\<close> on \<^verbatim>\<open>cp1\<close>; only its second disk is part of
  the checkpoint.
\<close>

definition checkpoint_cfg :: BackupConfig where
  "checkpoint_cfg =
     \<lparr>backup_id = ''b1'', from_checkpoint_id = Some ''cp1'', to_checkpoint_id = Some ''cp2'',
      parent_checkpoint_id = Some ''cp1'', require_consistency = None, creation_time = Some 1234,
      disks =
        [\<lparr>vol_id = ''vol-a'', img_id = ''img-a'', dom_id = ''dom-1'', checkpoint = False,
          disk_backup_mode = Some MODE_FULL, disk_scratch_disk = None\<rparr>,
         \<lparr>vol_id = ''vol-b'', img_id = ''img-b'', dom_id = ''dom-1'', checkpoint = True,
          disk_backup_mode = Some MODE_INCREMENTAL, disk_scratch_disk = None\<rparr>]\<rparr>"

section \<open>Properties\<close>

lemmas monad_defs = return_ok_def raise_def lift_def and_then_def try_except_def
  except_libvirtError_def try_finally_def call_def

lemma check_disks_isl:
  "isl (check_disks from_id ds) \<longleftrightarrow>
     (from_id = None \<and> (\<exists>d \<in> set ds. disk_backup_mode d = Some MODE_INCREMENTAL))"
  by (induction ds) auto

lemma check_disks_error:
  "check_disks from_id ds = Inl e \<Longrightarrow>
     e = BackupError ''Cannot start an incremental backup for disk, full backup is requested''"
  by (induction ds) (auto split: if_splits)

text \<open>
  C9. Constructing a \<^verbatim>\<open>BackupConfig\<close> is a pure function of the request. It raises exactly
  when \<^verbatim>\<open>from_checkpoint_id\<close> is set while \<^verbatim>\<open>parent_checkpoint_id\<close> is not, or when a disk
  asks for the incremental mode while \<^verbatim>\<open>from_checkpoint_id\<close> is not set; what it raises is
  a \<^verbatim>\<open>BackupError\<close>. A request that violates neither condition constructs.
\<close>

theorem BackupConfig_init_validation:
  "(isl (BackupConfig_init c) \<longleftrightarrow>
      (k_from_checkpoint_id c \<noteq> None \<and> k_parent_checkpoint_id c = None) \<or>
      (k_from_checkpoint_id c = None \<and>
       (\<exists>d \<in> set (k_disks c). k_backup_mode d = Some MODE_INCREMENTAL)))
   \<and> (\<forall>e. BackupConfig_init c = Inl e \<longrightarrow> (\<exists>reason. e = BackupError reason))"
proof -
  have m: "disk_backup_mode (DiskConfig_init d) = k_backup_mode d" for d
    by (simp add: DiskConfig_init_def)
  have "isl (BackupConfig_init c) \<longleftrightarrow>
      (k_from_checkpoint_id c \<noteq> None \<and> k_parent_checkpoint_id c = None) \<or>
      (k_from_checkpoint_id c = None \<and>
       (\<exists>d \<in> set (k_disks c). k_backup_mode d = Some MODE_INCREMENTAL))"
    using check_disks_isl [of "k_from_checkpoint_id c" "map DiskConfig_init (k_disks c)"]
    by (auto simp: BackupConfig_init_def Let_def m split: sum.splits)
  moreover have "\<exists>reason. e = BackupError reason" if "BackupConfig_init c = Inl e" for e
    using that by (auto simp: BackupConfig_init_def Let_def split: if_splits sum.splits dest: check_disks_error)
  ultimately show ?thesis by blast
qed

theorem BackupConfig_init_validation_witness:
  "isl (BackupConfig_init orphan_config) \<and>
   BackupConfig_init orphan_config =
     Inl (BackupError ''Cannot start an incremental backup without parent_checkpoint_id'')"
proof -
  have "k_from_checkpoint_id orphan_config \<noteq> None \<and> k_parent_checkpoint_id orphan_config = None"
    by (simp add: orphan_config_def unchecked_config_def)
  with BackupConfig_init_validation [of orphan_config] have "isl (BackupConfig_init orphan_config)"
    by blast
  moreover have "BackupConfig_init orphan_config =
     Inl (BackupError ''Cannot start an incremental backup without parent_checkpoint_id'')"
    by code_simp
  ultimately show ?thesis by simp
qed

lemma remove_loop_fst: "fst (remove_loop env ns w) = Inr ()"
  by (induction ns arbitrary: w)
     (auto simp: monad_defs irs_remove_transient_disk_def is_error_def split: prod.splits sum.splits)

lemma remove_loop_disks:
  "transient_disks (snd (remove_loop env ns w)) =
     filter (\<lambda>n. n \<notin> set ns \<or> remove_transient_disk_fails env n) (transient_disks w)"
proof (induction ns arbitrary: w)
  case Nil
  then show ?case by (simp add: monad_defs)
next
  case (Cons n ns)
  show ?case
  proof (cases "remove_transient_disk_fails env n")
    case True
    then show ?thesis
      using Cons [of "w\<lparr>trace := trace w @ [RemoveTransientDisk n, LogError n]\<rparr>"]
      by (auto simp: monad_defs irs_remove_transient_disk_def is_error_def intro: filter_cong)
  next
    case False
    then show ?thesis
      using Cons [of "w\<lparr>transient_disks := removeAll n (transient_disks w),
                         trace := trace w @ [RemoveTransientDisk n]\<rparr>"]
      by (auto simp: monad_defs irs_remove_transient_disk_def is_error_def removeAll_filter_not_eq
               intro: filter_cong)
  qed
qed

lemma remove_loop_trace:
  "trace (snd (remove_loop env ns w)) = trace w @ removal_events env ns"
  by (induction ns arbitrary: w)
     (auto simp: monad_defs irs_remove_transient_disk_def is_error_def removal_events_def
           split: prod.splits sum.splits)

lemma remove_loop_eq:
  "remove_loop env ns w =
     (Inr (), \<lparr>transient_disks = filter (\<lambda>n. n \<notin> set ns \<or> remove_transient_disk_fails env n) (transient_disks w),
              trace = trace w @ removal_events env ns\<rparr>)"
proof -
  obtain r w' where rw: "remove_loop env ns w = (r, w')" by (cases "remove_loop env ns w")
  have "r = Inr ()" using remove_loop_fst [of env ns w] rw by simp
  moreover have "transient_disks w' = filter (\<lambda>n. n \<notin> set ns \<or> remove_transient_disk_fails env n) (transient_disks w)"
    using remove_loop_disks [of env ns w] rw by simp
  moreover have "trace w' = trace w @ removal_events env ns"
    using remove_loop_trace [of env ns w] rw by simp
  ultimately show ?thesis using rw by simp
qed

lemma remove_scratch_disks_eq:
  "remove_scratch_disks env bid w =
     (if list_transient_disks_fails env
      then (Inl (BackupError ''Failed to fetch scratch disks''),
            w\<lparr>trace := trace w @ [ListTransientDisks]\<rparr>)
      else (Inr (),
            \<lparr>transient_disks = filter (remove_transient_disk_fails env) (transient_disks w),
             trace = trace w @ ListTransientDisks # removal_events env (transient_disks w)\<rparr>))"
  by (auto simp: remove_scratch_disks_def irs_list_transient_disks_def and_then_def raise_def
        remove_loop_eq intro: filter_cong)

lemma new_events_append: "trace w' = trace w @ evs \<Longrightarrow> new_events w w' = evs"
  by (simp add: new_events_def)

lemma create_transient_disk_Inl:
  assumes "create_transient_disk env bid d w = (Inl e, w1)"
  shows "transient_disks w1 = transient_disks w \<and> (\<exists>evs. trace w1 = trace w @ evs)"
  using assms
  by (auto simp: create_transient_disk_def get_drive_capacity_def irs_create_transient_disk_def
        monad_defs Let_def split: sum.splits prod.splits if_splits exn.splits response.splits)

lemma create_transient_disk_Inr:
  assumes "create_transient_disk env bid d w = (Inr p, w1)"
  shows "transient_disks w1 = transient_disks w @ [transient_disk_name bid d] \<and>
         trace w1 = trace w @ expected_creation env bid d \<and>
         \<not> isl (blockInfo env (path d)) \<and>
         p = transient_disk_path env (transient_disk_name bid d)"
  using assms
  by (auto simp: create_transient_disk_def get_drive_capacity_def irs_create_transient_disk_def
        monad_defs Let_def expected_creation_def transient_disk_name_def
        split: sum.splits prod.splits if_splits exn.splits response.splits)

lemma create_scratch_disks_Inr:
  assumes "create_scratch_disks env bid drives w = (Inr drives', w')"
  shows "trace w' = trace w @ concat (map (expected_creation env bid) (filter lacks_scratch_disk (map snd drives)))
       \<and> list_all (\<lambda>d. \<not> isl (blockInfo env (path d))) (filter lacks_scratch_disk (map snd drives))
       \<and> transient_disks w' = transient_disks w @ map (transient_disk_name bid) (filter lacks_scratch_disk (map snd drives))
       \<and> drives' = map (\<lambda>kd. (fst kd, with_scratch_disk env bid (snd kd))) drives"
  using assms
proof (induction drives arbitrary: w drives' w')
  case Nil
  then show ?case by (simp add: monad_defs)
next
  case (Cons kd rest)
  show ?case
  proof (cases "scratch_disk (snd kd) = None")
    case False
    with Cons.prems obtain rest' where r: "create_scratch_disks env bid rest w = (Inr rest', w')"
      and d: "drives' = kd # rest'"
      by (auto simp: monad_defs split: sum.splits prod.splits)
    from Cons.IH [OF r] False d show ?thesis
      by (auto simp: lacks_scratch_disk_def with_scratch_disk_def)
  next
    case True
    with Cons.prems obtain p w1 rest' where
      c: "create_transient_disk env bid (snd kd) w = (Inr p, w1)" and
      r: "create_scratch_disks env bid rest w1 = (Inr rest', w')" and
      d: "drives' = (fst kd, (snd kd)\<lparr>scratch_disk := Some \<lparr>sd_path = p, sd_type = FILE\<rparr>\<rparr>) # rest'"
      by (auto simp: monad_defs split: sum.splits prod.splits)
    from Cons.IH [OF r] create_transient_disk_Inr [OF c] True d show ?thesis
      by (simp add: lacks_scratch_disk_def with_scratch_disk_def)
  qed
qed

lemma rollback_step:
  assumes "and_then (remove_scratch_disks env bid) (\<lambda>_. raise e0) w1 = (Inl e, w')"
  shows "rolled_back env (transient_disks w1) e w'"
  using assms
  by (auto simp: remove_scratch_disks_eq and_then_def raise_def rolled_back_def split: if_splits)

lemma and_then_raise_Inl: "\<exists>e w'. and_then m (\<lambda>_. raise e0) w = (Inl e, w')"
  by (auto simp: and_then_def raise_def split: prod.splits sum.splits)

lemma create_scratch_disks_Inl:
  assumes "create_scratch_disks env bid drives w = (Inl e, w')"
  shows "\<exists>done d rest.
           map snd drives = done @ d # rest \<and> scratch_disk d = None \<and>
           rolled_back env
             (transient_disks w @ map (transient_disk_name bid) (filter lacks_scratch_disk done)) e w'"
  using assms
proof (induction drives arbitrary: w)
  case Nil
  then show ?case by (simp add: monad_defs)
next
  case (Cons kd rest)
  show ?case
  proof (cases "scratch_disk (snd kd) = None")
    case False
    with Cons.prems have r: "create_scratch_disks env bid rest w = (Inl e, w')"
      by (auto simp: monad_defs split: sum.splits prod.splits)
    from Cons.IH [OF r] obtain dn d rs where
      "map snd rest = dn @ d # rs" "scratch_disk d = None"
      "rolled_back env (transient_disks w @ map (transient_disk_name bid) (filter lacks_scratch_disk dn)) e w'"
      by blast
    with False have
      "map snd (kd # rest) = (snd kd # dn) @ d # rs \<and> scratch_disk d = None \<and>
       rolled_back env (transient_disks w @ map (transient_disk_name bid) (filter lacks_scratch_disk (snd kd # dn))) e w'"
      by (auto simp: lacks_scratch_disk_def)
    then show ?thesis by blast
  next
    case True
    obtain r1 w1 where c: "create_transient_disk env bid (snd kd) w = (r1, w1)"
      by (cases "create_transient_disk env bid (snd kd) w")
    show ?thesis
    proof (cases r1)
      case (Inl e0)
      obtain ea wa where
        ra: "and_then (remove_scratch_disks env bid) (\<lambda>_. raise e0 :: string action) w1 = (Inl ea, wa)"
        using and_then_raise_Inl [of "remove_scratch_disks env bid" e0 w1] by blast
      have "create_scratch_disks env bid (kd # rest) w = (Inl ea, wa)"
        using c Inl True ra by (simp add: and_then_def [of "try_except _ _"] try_except_def)
      with Cons.prems ra
      have rb: "and_then (remove_scratch_disks env bid) (\<lambda>_. raise e0 :: string action) w1 = (Inl e, w')"
        by simp
      from create_transient_disk_Inl [of env bid "snd kd" w e0 w1] c Inl
      have "transient_disks w1 = transient_disks w" by simp
      with rollback_step [OF rb]
      have "map snd (kd # rest) = [] @ snd kd # map snd rest \<and> scratch_disk (snd kd) = None \<and>
        rolled_back env (transient_disks w @ map (transient_disk_name bid) (filter lacks_scratch_disk [])) e w'"
        using True by simp
      then show ?thesis by blast
    next
      case (Inr p)
      with c Cons.prems True
      have r: "create_scratch_disks env bid rest w1 = (Inl e, w')"
        by (auto simp: and_then_def try_except_def return_ok_def split: sum.splits prod.splits)
      from create_transient_disk_Inr [of env bid "snd kd" w p w1] c Inr
      have t: "transient_disks w1 = transient_disks w @ [transient_disk_name bid (snd kd)]" by simp
      from Cons.IH [OF r] obtain dn d rs where
        "map snd rest = dn @ d # rs" "scratch_disk d = None"
        "rolled_back env (transient_disks w1 @ map (transient_disk_name bid) (filter lacks_scratch_disk dn)) e w'"
        by blast
      with True t have
        "map snd (kd # rest) = (snd kd # dn) @ d # rs \<and> scratch_disk d = None \<and>
         rolled_back env (transient_disks w @ map (transient_disk_name bid) (filter lacks_scratch_disk (snd kd # dn))) e w'"
        by (simp add: lacks_scratch_disk_def)
      then show ?thesis by blast
    qed
  qed
qed

lemma emitsD: "emits P m \<Longrightarrow> \<exists>evs. trace (snd (m w)) = trace w @ evs \<and> list_all P evs"
  by (simp add: emits_def)

lemma emits_return_ok [intro!, simp]: "emits P (return_ok v)"
  by (simp add: emits_def return_ok_def)

lemma emits_raise [intro!, simp]: "emits P (raise e)"
  by (simp add: emits_def raise_def)

lemma emits_lift [intro!, simp]: "emits P (lift r)"
  by (simp add: emits_def lift_def)

lemma emits_call [intro!]: "P ev \<Longrightarrow> emits P (call ev r)"
  by (simp add: emits_def call_def)

lemma emits_and_then [intro!]:
  assumes "emits P m" and "\<And>v. emits P (f v)"
  shows "emits P (and_then m f)"
  unfolding emits_def
proof
  fix w
  obtain r w1 where m: "m w = (r, w1)" by (cases "m w")
  from emitsD [OF assms(1), of w] m obtain e1 where e1: "trace w1 = trace w @ e1" "list_all P e1"
    by auto
  show "\<exists>evs. trace (snd (and_then m f w)) = trace w @ evs \<and> list_all P evs"
  proof (cases r)
    case (Inl e)
    with m e1 show ?thesis by (simp add: and_then_def)
  next
    case (Inr v)
    from emitsD [OF assms(2), of v w1] obtain e2 where
      "trace (snd (f v w1)) = trace w1 @ e2" "list_all P e2" by auto
    with m e1 Inr have "trace (snd (and_then m f w)) = trace w @ (e1 @ e2) \<and> list_all P (e1 @ e2)"
      by (simp add: and_then_def)
    then show ?thesis by blast
  qed
qed

lemma emits_try_except [intro!]:
  assumes "emits P m" and "\<And>e. emits P (h e)"
  shows "emits P (try_except m h)"
  unfolding emits_def
proof
  fix w
  obtain r w1 where m: "m w = (r, w1)" by (cases "m w")
  from emitsD [OF assms(1), of w] m obtain e1 where e1: "trace w1 = trace w @ e1" "list_all P e1"
    by auto
  show "\<exists>evs. trace (snd (try_except m h w)) = trace w @ evs \<and> list_all P evs"
  proof (cases r)
    case (Inr v)
    with m e1 show ?thesis by (simp add: try_except_def)
  next
    case (Inl e)
    from emitsD [OF assms(2), of e w1] obtain e2 where
      "trace (snd (h e w1)) = trace w1 @ e2" "list_all P e2" by auto
    with m e1 Inl have "trace (snd (try_except m h w)) = trace w @ (e1 @ e2) \<and> list_all P (e1 @ e2)"
      by (simp add: try_except_def)
    then show ?thesis by blast
  qed
qed

lemma emits_except_libvirtError [intro!]:
  assumes "emits P m" and "\<And>c msg. emits P (h c msg)"
  shows "emits P (except_libvirtError m h)"
  unfolding except_libvirtError_def
  by (rule emits_try_except [OF assms(1)]) (auto split: exn.splits intro: assms(2))

lemma emits_if [intro!]: "emits P a \<Longrightarrow> emits P b \<Longrightarrow> emits P (if c then a else b)"
  by simp

lemma emits_remove_loop:
  assumes "\<And>n. P (RemoveTransientDisk n)" "\<And>n. P (LogError n)"
  shows "emits P (remove_loop env ns)"
  unfolding emits_def
proof
  fix w
  have "list_all P (removal_events env ns)"
    using assms by (induction ns) (auto simp: removal_events_def)
  then show "\<exists>evs. trace (snd (remove_loop env ns w)) = trace w @ evs \<and> list_all P evs"
    using remove_loop_trace [of env ns w] by blast
qed

lemma emits_remove_scratch_disks:
  assumes "P ListTransientDisks" "\<And>n. P (RemoveTransientDisk n)" "\<And>n. P (LogError n)"
  shows "emits P (remove_scratch_disks env bid)"
  unfolding emits_def
proof
  fix w
  have "list_all P (removal_events env ns)" for ns
    using assms by (induction ns) (auto simp: removal_events_def)
  then show "\<exists>evs. trace (snd (remove_scratch_disks env bid w)) = trace w @ evs \<and> list_all P evs"
    using assms(1) by (simp add: remove_scratch_disks_eq)
qed

lemma emits_create_transient_disk:
  assumes "\<And>p. P (BlockInfo p)" "\<And>n s. P (CreateTransientDisk n s)"
  shows "emits P (create_transient_disk env bid d)"
  unfolding emits_def
  using assms
  by (auto simp: create_transient_disk_def get_drive_capacity_def irs_create_transient_disk_def
        monad_defs Let_def split: sum.splits prod.splits if_splits exn.splits response.splits)

lemma emits_create_scratch_disks:
  assumes "\<And>p. P (BlockInfo p)" "\<And>n s. P (CreateTransientDisk n s)"
    "P ListTransientDisks" "\<And>n. P (RemoveTransientDisk n)" "\<And>n. P (LogError n)"
  shows "emits P (create_scratch_disks env bid drives)"
proof (induction drives)
  case Nil
  show ?case by simp
next
  case (Cons kd rest)
  have c: "emits P (create_transient_disk env bid d)" for d
    using assms by (intro emits_create_transient_disk)
  have r: "emits P (remove_scratch_disks env bid)"
    using assms by (intro emits_remove_scratch_disks)
  show ?case using Cons c r by (auto simp del: create_transient_disk_def)
qed

lemma emits_begin_backup:
  assumes "\<And>x y. P (BackupBegin x y)"
  shows "emits P (begin_backup env cfg bx cx)"
  unfolding begin_backup_def using assms by auto

lemma freeze_and_begin_trace:
  "\<exists>mid. trace (snd (freeze_and_begin env cfg addr drives w)) = trace w @ Freeze # mid \<and>
         list_all quiet mid"
proof -
  let ?w1 = "w\<lparr>trace := trace w @ [Freeze]\<rparr>"
  show ?thesis
  proof (cases "freeze env")
    case (Inl e)
    then show ?thesis by (simp add: freeze_and_begin_def and_then_def call_def)
  next
    case (Inr res)
    let ?k = "if is_error res \<and> require_consistency cfg = Some True
       then raise (BackupError ''Failed freeze VM'')
       else
         and_then (lift (create_backup_xml (disable_dynamic_ownership env) addr drives
                           (from_checkpoint_id cfg))) (\<lambda>backup_xml.
         and_then (lift (create_checkpoint_xml cfg drives)) (\<lambda>checkpoint_xml.
         begin_backup env cfg backup_xml checkpoint_xml))"
    have "emits quiet ?k"
      by (intro emits_if emits_raise emits_and_then emits_lift emits_begin_backup)
         (simp add: quiet_def)
    from emitsD [OF this, of ?w1] obtain evs where
      "trace (snd (?k ?w1)) = trace ?w1 @ evs" "list_all quiet evs" by blast
    moreover have "freeze_and_begin env cfg addr drives w = ?k ?w1"
      using Inr by (simp add: freeze_and_begin_def and_then_def [of "call _ _"] call_def)
    ultimately show ?thesis by simp
  qed
qed

lemma backup_session_trace:
  "\<exists>mid. trace (snd (backup_session env cfg addr drives w)) = trace w @ Freeze # mid @ [Thaw] \<and>
         list_all quiet mid"
proof -
  let ?body = "try_except (freeze_and_begin env cfg addr drives)
          (\<lambda>e. and_then (remove_scratch_disks env (backup_id cfg)) (\<lambda>_. raise e))"
  obtain r1 w1 where f: "freeze_and_begin env cfg addr drives w = (r1, w1)"
    by (cases "freeze_and_begin env cfg addr drives w")
  from freeze_and_begin_trace [of env cfg addr drives w] f obtain m1 where
    m1: "trace w1 = trace w @ Freeze # m1" "list_all quiet m1" by auto
  have "\<exists>m2. trace (snd (?body w)) = trace w @ Freeze # m2 \<and> list_all quiet m2"
  proof (cases r1)
    case (Inr v)
    with f m1 show ?thesis by (simp add: try_except_def)
  next
    case (Inl e)
    have "emits quiet (and_then (remove_scratch_disks env (backup_id cfg)) (\<lambda>_. raise e :: unit action))"
      by (intro emits_and_then emits_raise emits_remove_scratch_disks) (simp_all add: quiet_def)
    from emitsD [OF this, of w1] obtain e2 where
      "trace (snd (and_then (remove_scratch_disks env (backup_id cfg)) (\<lambda>_. raise e :: unit action) w1))
         = trace w1 @ e2" "list_all quiet e2" by blast
    with f m1 Inl have "trace (snd (?body w)) = trace w @ Freeze # (m1 @ e2) \<and> list_all quiet (m1 @ e2)"
      by (simp add: try_except_def)
    then show ?thesis by blast
  qed
  then obtain m2 where m2: "trace (snd (?body w)) = trace w @ Freeze # m2" "list_all quiet m2"
    by blast
  have "trace (snd (backup_session env cfg addr drives w)) = trace (snd (?body w)) @ [Thaw]"
    by (auto simp: backup_session_def try_finally_def and_then_def call_def return_ok_def
          split: prod.splits sum.splits)
  with m2 show ?thesis by simp
qed

lemma emits_validate_parent_id: "emits quiet (validate_parent_id env cfg)"
  unfolding validate_parent_id_def get_leaf_checkpoint_name_def
  by (intro emits_if emits_return_ok emits_and_then emits_except_libvirtError emits_call emits_raise)
     (simp add: quiet_def)

lemma emits_add_checkpoint_xml: "emits checkpoint_read (add_checkpoint_xml env bid c res)"
  unfolding add_checkpoint_xml_def
  by (intro emits_if emits_return_ok emits_and_then emits_except_libvirtError emits_call emits_raise)
     (simp_all add: checkpoint_read_def)

lemma start_backup_trace:
  "\<exists>pre. list_all quiet pre \<and>
     (new_events w (snd (start_backup env config w)) = pre \<or>
      (\<exists>mid post. list_all quiet mid \<and> list_all checkpoint_read post \<and>
         new_events w (snd (start_backup env config w)) = pre @ Freeze # mid @ Thaw # post))"
proof (cases "BackupConfig_init config")
  case (Inl e)
  then have "new_events w (snd (start_backup env config w)) = []"
    by (simp add: start_backup_def and_then_def lift_def new_events_def)
  then show ?thesis by simp
next
  case (Inr cfg)
  show ?thesis
  proof (cases "disks cfg = []")
    case True
    with Inr have "new_events w (snd (start_backup env config w)) = []"
      by (simp add: start_backup_def and_then_def lift_def raise_def new_events_def)
    then show ?thesis by simp
  next
    case False
    obtain r1 w1 where v: "validate_parent_id env cfg w = (r1, w1)"
      by (cases "validate_parent_id env cfg w")
    from emitsD [OF emits_validate_parent_id, of env cfg w] v obtain e1 where
      e1: "trace w1 = trace w @ e1" "list_all quiet e1" by auto
    let ?bid = "backup_id cfg"
    let ?addr = "UnixAddress (socket_path env ?bid)"
    let ?fin = "\<lambda>drives. (let disks_urls = map (\<lambda>kd. (fst kd, url ?addr (name (snd kd)))) drives;
               result = \<lparr>result_disks = disks_urls, result_checkpoint = None\<rparr>
           in case to_checkpoint_id cfg of
                Some to_id \<Rightarrow> add_checkpoint_xml env ?bid to_id result
              | None \<Rightarrow> return_ok result)"
    let ?rest = "\<lambda>drives0.
          and_then (create_scratch_disks env ?bid drives0) (\<lambda>drives.
          and_then (backup_session env cfg ?addr drives) (\<lambda>_. ?fin drives))"
    have sb: "start_backup env config w =
        (case r1 of Inl e \<Rightarrow> (Inl e, w1)
         | Inr _ \<Rightarrow> (case get_disks_drives env cfg of Inl e \<Rightarrow> (Inl e, w1)
                     | Inr drives0 \<Rightarrow> ?rest drives0 w1))"
      using Inr False v
      by (simp add: start_backup_def and_then_def [of "lift _"] and_then_def [of "validate_parent_id _ _"]
            lift_def Let_def split: sum.splits)
    show ?thesis
    proof (cases r1)
      case (Inl e)
      with sb e1 have "new_events w (snd (start_backup env config w)) = e1"
        by (simp add: new_events_def)
      with e1 show ?thesis by auto
    next
      case r1: (Inr u)
      show ?thesis
      proof (cases "get_disks_drives env cfg")
        case (Inl e)
        with sb e1 r1 have "new_events w (snd (start_backup env config w)) = e1"
          by (simp add: new_events_def)
        with e1 show ?thesis by auto
      next
        case (Inr drives0)
        obtain r2 w2 where c: "create_scratch_disks env ?bid drives0 w1 = (r2, w2)"
          by (cases "create_scratch_disks env ?bid drives0 w1")
        have "emits quiet (create_scratch_disks env ?bid drives0)"
          by (rule emits_create_scratch_disks) (simp_all add: quiet_def)
        from emitsD [OF this, of w1] c obtain e2 where
          e2: "trace w2 = trace w1 @ e2" "list_all quiet e2" by auto
        show ?thesis
        proof (cases r2)
          case (Inl e)
          with sb r1 Inr c have "snd (start_backup env config w) = w2"
            by (simp add: and_then_def)
          with e1 e2 have "new_events w (snd (start_backup env config w)) = e1 @ e2 \<and> list_all quiet (e1 @ e2)"
            by (simp add: new_events_def)
          then show ?thesis by blast
        next
          case r2: (Inr drives)
          obtain r3 w3 where s: "backup_session env cfg ?addr drives w2 = (r3, w3)"
            by (cases "backup_session env cfg ?addr drives w2")
          from backup_session_trace [of env cfg ?addr drives w2] s obtain mid where
            mid: "trace w3 = trace w2 @ Freeze # mid @ [Thaw]" "list_all quiet mid" by auto
          have "emits checkpoint_read (?fin drives)"
            by (auto simp: Let_def split: option.splits intro: emits_add_checkpoint_xml)
          from emitsD [OF this, of w3] obtain post where
            post: "trace (snd (?fin drives w3)) = trace w3 @ post" "list_all checkpoint_read post"
            by blast
          have "snd (start_backup env config w) = (case r3 of Inl e \<Rightarrow> w3 | Inr _ \<Rightarrow> snd (?fin drives w3))"
            using sb r1 Inr c r2 s by (simp add: and_then_def split: sum.splits)
          then have "\<exists>post. list_all checkpoint_read post \<and>
               trace (snd (start_backup env config w)) = trace w3 @ post"
            using post by (cases r3) auto
          then obtain post' where "list_all checkpoint_read post'"
             "trace (snd (start_backup env config w)) = trace w3 @ post'" by blast
          with mid e1 e2 have
            "list_all quiet (e1 @ e2) \<and> list_all quiet mid \<and> list_all checkpoint_read post' \<and>
             new_events w (snd (start_backup env config w)) = (e1 @ e2) @ Freeze # mid @ Thaw # post'"
            by (simp add: new_events_def)
          then show ?thesis by blast
        qed
      qed
    qed
  qed
qed

lemma quiet_count: "list_all quiet xs \<Longrightarrow> count_list xs Thaw = 0 \<and> count_list xs Freeze = 0"
  by (induction xs) (auto simp: quiet_def)

lemma checkpoint_read_count:
  "list_all checkpoint_read xs \<Longrightarrow> count_list xs Thaw = 0 \<and> count_list xs Freeze = 0"
  by (induction xs) (auto simp: checkpoint_read_def split: event.splits)

lemma quiet_not_Freeze: "list_all quiet xs \<Longrightarrow> Freeze \<notin> set xs"
  by (induction xs) (auto simp: quiet_def)

text \<open>
  C3. Whatever the collaborators answer or raise, if \<^verbatim>\<open>start_backup\<close> reaches the freeze then it
  freezes once and thaws exactly once, after the freeze; between the two are only the
  begin-backup call and the calls of the scratch-disk rollback, and after the thaw only
  the reads of the checkpoint descriptor.
\<close>

theorem start_backup_thaws_exactly_once:
  assumes "start_backup env config w = (r, w')" and "Freeze \<in> set (new_events w w')"
  shows "count_list (new_events w w') Thaw = 1 \<and>
         count_list (new_events w w') Freeze = 1 \<and>
         (\<exists>pre mid post.
            new_events w w' = pre @ Freeze # mid @ Thaw # post \<and>
            list_all quiet pre \<and> list_all quiet mid \<and> list_all checkpoint_read post)"
proof -
  from start_backup_trace [of w env config] assms(1) obtain pre where
    pre: "list_all quiet pre" and
    alt: "new_events w w' = pre \<or>
      (\<exists>mid post. list_all quiet mid \<and> list_all checkpoint_read post \<and>
         new_events w w' = pre @ Freeze # mid @ Thaw # post)"
    by auto
  from assms(2) pre quiet_not_Freeze have "new_events w w' \<noteq> pre" by metis
  with alt obtain mid post where
    mp: "list_all quiet mid" "list_all checkpoint_read post"
        "new_events w w' = pre @ Freeze # mid @ Thaw # post"
    by blast
  have "count_list (new_events w w') Thaw = 1 \<and> count_list (new_events w w') Freeze = 1"
    using mp pre quiet_count [of pre] quiet_count [of mid] checkpoint_read_count [of post]
    by simp
  with mp pre show ?thesis by blast
qed

theorem start_backup_thaws_exactly_once_witness:
  "fst (start_backup begin_fails_env full_config fresh_world) = Inl (BackupError ''Error starting backup'') \<and>
   Freeze \<in> set (new_events fresh_world (snd (start_backup begin_fails_env full_config fresh_world))) \<and>
   count_list (new_events fresh_world (snd (start_backup begin_fails_env full_config fresh_world))) Thaw = 1"
proof -
  obtain r w' where s: "start_backup begin_fails_env full_config fresh_world = (r, w')"
    by (cases "start_backup begin_fails_env full_config fresh_world")
  have r: "fst (start_backup begin_fails_env full_config fresh_world) = Inl (BackupError ''Error starting backup'')"
    by code_simp
  have f: "Freeze \<in> set (new_events fresh_world (snd (start_backup begin_fails_env full_config fresh_world)))"
    by code_simp
  with s have "Freeze \<in> set (new_events fresh_world w')" by simp
  from start_backup_thaws_exactly_once [OF s this] have "count_list (new_events fresh_world w') Thaw = 1"
    by blast
  with s r f show ?thesis by simp
qed

lemma start_backup_Inr_validated:
  assumes "start_backup env config w = (Inr res, w')"
  shows "\<exists>cfg w1. BackupConfig_init config = Inr cfg \<and> validate_parent_id env cfg w = (Inr (), w1)"
  using assms
  by (auto simp: start_backup_def and_then_def [of "lift _"] and_then_def [of "validate_parent_id _ _"]
        lift_def raise_def split: sum.splits if_splits prod.splits)

lemma validate_parent_id_Inr:
  assumes "validate_parent_id env cfg w = (Inr u, w1)" "to_checkpoint_id cfg \<noteq> None"
  shows "\<exists>cps. listAllCheckpoints env = Inr cps \<and> parent_checkpoint_id cfg = leaf_name cps"
  using assms
  by (auto simp: validate_parent_id_def get_leaf_checkpoint_name_def monad_defs leaf_name_def
        split: sum.splits if_splits prod.splits exn.splits)

lemma BackupConfig_init_fields:
  "BackupConfig_init config = Inr cfg \<Longrightarrow>
     to_checkpoint_id cfg = k_to_checkpoint_id config \<and>
     parent_checkpoint_id cfg = k_parent_checkpoint_id config \<and>
     from_checkpoint_id cfg = k_from_checkpoint_id config \<and>
     backup_id cfg = k_backup_id config \<and>
     (disks cfg = [] \<longleftrightarrow> k_disks config = [])"
  by (auto simp: BackupConfig_init_def Let_def split: if_splits sum.splits)

text \<open>
  C1, as the code has it. The parent is checked for a request that creates a checkpoint
  (\<^verbatim>\<open>to_checkpoint_id\<close> set), whether or not \<^verbatim>\<open>from_checkpoint_id\<close> is set: if such a
  request succeeds, its \<^verbatim>\<open>parent_checkpoint_id\<close> is the leaf of the topological listing; if
  the request is valid and has disks, a parent that is not the leaf, or a listing that
  fails, ends \<^verbatim>\<open>start_backup\<close> with a \<^verbatim>\<open>CheckpointError\<close> after the listing and no other
  call: no scratch disk was created and the guest was not frozen.
\<close>

theorem start_backup_validates_parent:
  assumes "k_to_checkpoint_id config \<noteq> None"
  shows "(\<forall>res w'. start_backup env config w = (Inr res, w') \<longrightarrow>
            (\<exists>cps. listAllCheckpoints env = Inr cps \<and> k_parent_checkpoint_id config = leaf_name cps))
       \<and> (\<forall>cps. \<not> isl (BackupConfig_init config) \<and> k_disks config \<noteq> [] \<and>
                listAllCheckpoints env = Inr cps \<and> k_parent_checkpoint_id config \<noteq> leaf_name cps \<longrightarrow>
            start_backup env config w =
              (Inl (CheckpointError ''Parent checkpoint ID does not match the actual leaf checkpoint''),
               w\<lparr>trace := trace w @ [ListAllCheckpoints]\<rparr>))
       \<and> (\<forall>c msg. \<not> isl (BackupConfig_init config) \<and> k_disks config \<noteq> [] \<and>
                listAllCheckpoints env = Inl (libvirtError c msg) \<longrightarrow>
            start_backup env config w =
              (Inl (CheckpointError ''Failed to fetch defined leaf checkpoint''),
               w\<lparr>trace := trace w @ [ListAllCheckpoints]\<rparr>))"
proof (intro conjI allI impI)
  fix res w'
  assume "start_backup env config w = (Inr res, w')"
  from start_backup_Inr_validated [OF this] obtain cfg w1 where
    c: "BackupConfig_init config = Inr cfg" and v: "validate_parent_id env cfg w = (Inr (), w1)"
    by blast
  from BackupConfig_init_fields [OF c] assms validate_parent_id_Inr [OF v]
  show "\<exists>cps. listAllCheckpoints env = Inr cps \<and> k_parent_checkpoint_id config = leaf_name cps"
    by simp
next
  fix cps
  assume a: "\<not> isl (BackupConfig_init config) \<and> k_disks config \<noteq> [] \<and>
        listAllCheckpoints env = Inr cps \<and> k_parent_checkpoint_id config \<noteq> leaf_name cps"
  then obtain cfg where c: "BackupConfig_init config = Inr cfg"
    by (cases "BackupConfig_init config") auto
  from BackupConfig_init_fields [OF c] a assms
  have "validate_parent_id env cfg w =
      (Inl (CheckpointError ''Parent checkpoint ID does not match the actual leaf checkpoint''),
               w\<lparr>trace := trace w @ [ListAllCheckpoints]\<rparr>)"
    by (auto simp: validate_parent_id_def get_leaf_checkpoint_name_def monad_defs leaf_name_def)
  with c a BackupConfig_init_fields [OF c]
  show "start_backup env config w =
      (Inl (CheckpointError ''Parent checkpoint ID does not match the actual leaf checkpoint''),
               w\<lparr>trace := trace w @ [ListAllCheckpoints]\<rparr>)"
    by (simp add: start_backup_def and_then_def [of "lift _"] and_then_def [of "validate_parent_id _ _"]
          lift_def)
next
  fix c msg
  assume a: "\<not> isl (BackupConfig_init config) \<and> k_disks config \<noteq> [] \<and>
        listAllCheckpoints env = Inl (libvirtError c msg)"
  then obtain cfg where c: "BackupConfig_init config = Inr cfg"
    by (cases "BackupConfig_init config") auto
  from BackupConfig_init_fields [OF c] a assms
  have "validate_parent_id env cfg w =
      (Inl (CheckpointError ''Failed to fetch defined leaf checkpoint''),
               w\<lparr>trace := trace w @ [ListAllCheckpoints]\<rparr>)"
    by (auto simp: validate_parent_id_def get_leaf_checkpoint_name_def monad_defs)
  with c a BackupConfig_init_fields [OF c]
  show "start_backup env config w =
      (Inl (CheckpointError ''Failed to fetch defined leaf checkpoint''),
               w\<lparr>trace := trace w @ [ListAllCheckpoints]\<rparr>)"
    by (simp add: start_backup_def and_then_def [of "lift _"] and_then_def [of "validate_parent_id _ _"]
          lift_def)
qed

theorem start_backup_validates_parent_witness:
  "k_to_checkpoint_id mismatched_config \<noteq> None \<and>
   start_backup happy_env mismatched_config fresh_world =
     (Inl (CheckpointError ''Parent checkpoint ID does not match the actual leaf checkpoint''),
      fresh_world\<lparr>trace := trace fresh_world @ [ListAllCheckpoints]\<rparr>)"
proof -
  have h: "k_to_checkpoint_id mismatched_config \<noteq> None"
    by (simp add: mismatched_config_def)
  have p: "\<not> isl (BackupConfig_init mismatched_config) \<and> k_disks mismatched_config \<noteq> [] \<and>
      listAllCheckpoints happy_env = Inr [''cp0'', ''cp1''] \<and>
      k_parent_checkpoint_id mismatched_config \<noteq> leaf_name [''cp0'', ''cp1'']"
    by code_simp
  from start_backup_validates_parent [OF h, of happy_env fresh_world] p h show ?thesis
    by blast
qed

text \<open>
  C1 as stated fails: a request with \<^verbatim>\<open>from_checkpoint_id\<close> set that creates no checkpoint
  is not checked. Here the parent \<^verbatim>\<open>cp0\<close> is not the leaf \<^verbatim>\<open>cp1\<close>, the checkpoints are
  not even listed, and the backup starts.
\<close>

theorem start_backup_unchecked_parent_counterexample:
  "k_from_checkpoint_id unchecked_config = Some ''cp1'' \<and>
   k_parent_checkpoint_id unchecked_config = Some ''cp0'' \<and>
   listAllCheckpoints happy_env = Inr [''cp0'', ''cp1''] \<and>
   leaf_name [''cp0'', ''cp1''] = Some ''cp1'' \<and>
   fst (start_backup happy_env unchecked_config fresh_world) =
     Inr \<lparr>result_disks = [(''vda'', ''/run/vdsm/backup/b1/vda'')], result_checkpoint = None\<rparr> \<and>
   ListAllCheckpoints \<notin> set (trace (snd (start_backup happy_env unchecked_config fresh_world)))"
  by code_simp

text \<open>
  C4, as the code has it. When no backup is found, or the domain is not connected,
  \<^verbatim>\<open>stop_backup\<close> makes no abort call and goes on to remove the scratch disks. When a backup
  is found it calls abort once; if the abort succeeds or fails with ``operation invalid'',
  it goes on to remove the scratch disks; if the abort fails with any other hypervisor
  error, a \<^verbatim>\<open>BackupError\<close> is raised and the scratch disks are not touched.
\<close>

theorem stop_backup_cases:
  "((\<exists>msg. backupGetXMLDesc env = Inl (libvirtError VIR_ERR_NO_DOMAIN_BACKUP msg)) \<or>
     backupGetXMLDesc env = Inl NotConnectedError \<longrightarrow>
      stop_backup env bid w =
        remove_scratch_disks env bid (w\<lparr>trace := trace w @ [BackupGetXMLDesc]\<rparr>))
   \<and> ((\<exists>x. backupGetXMLDesc env = Inr x) \<and>
       (abortJob env = Inr () \<or>
        (\<exists>msg. abortJob env = Inl (libvirtError VIR_ERR_OPERATION_INVALID msg))) \<longrightarrow>
      stop_backup env bid w =
        remove_scratch_disks env bid (w\<lparr>trace := trace w @ [BackupGetXMLDesc, AbortJob]\<rparr>))
   \<and> ((\<exists>x. backupGetXMLDesc env = Inr x) \<and>
       (\<exists>c msg. abortJob env = Inl (libvirtError c msg) \<and> c \<noteq> VIR_ERR_OPERATION_INVALID) \<longrightarrow>
      stop_backup env bid w =
        (Inl (BackupError ''Failed to end VM backup''),
         w\<lparr>trace := trace w @ [BackupGetXMLDesc, AbortJob]\<rparr>))"
  by (auto simp: stop_backup_def backup_exists_def get_backup_xml_def monad_defs)

theorem stop_backup_cases_witness:
  "stop_backup no_backup_env ''b1'' world_with_disk =
     (Inr (), \<lparr>transient_disks = [],
               trace = [BackupGetXMLDesc, ListTransientDisks, RemoveTransientDisk ''b1.vda'']\<rparr>)"
proof -
  have "\<exists>msg. backupGetXMLDesc no_backup_env = Inl (libvirtError VIR_ERR_NO_DOMAIN_BACKUP msg)"
    by (simp add: no_backup_env_def happy_env_def)
  with stop_backup_cases [of no_backup_env "''b1''" world_with_disk]
  have "stop_backup no_backup_env ''b1'' world_with_disk =
        remove_scratch_disks no_backup_env ''b1'' (world_with_disk\<lparr>trace := trace world_with_disk @ [BackupGetXMLDesc]\<rparr>)"
    by blast
  also have "\<dots> = (Inr (), \<lparr>transient_disks = [],
               trace = [BackupGetXMLDesc, ListTransientDisks, RemoveTransientDisk ''b1.vda'']\<rparr>)"
    by code_simp
  finally show ?thesis .
qed

text \<open>
  C4 as stated fails: the removal of the scratch disks does not run when the abort error
  escalates. Here the abort fails with another error; the transient disks are not listed
  and the one of the VM is still there.
\<close>

theorem stop_backup_abort_error_counterexample:
  "backupGetXMLDesc abort_fails_env = Inr ''<domainbackup/>'' \<and>
   abortJob abort_fails_env = Inl (libvirtError (VIR_ERR_OTHER 1) ''internal error'') \<and>
   stop_backup abort_fails_env ''b1'' world_with_disk =
     (Inl (BackupError ''Failed to end VM backup''),
      \<lparr>transient_disks = [''b1.vda''], trace = [BackupGetXMLDesc, AbortJob]\<rparr>)"
  by code_simp

lemma delete_one_ok:
  "deleted_or_absent env cid \<Longrightarrow>
     delete_one env cid w = (Inr None, w\<lparr>trace := trace w @ delete_events env cid\<rparr>)"
  by (auto simp: deleted_or_absent_def delete_one_def delete_events_def monad_defs)

lemma delete_one_hard:
  "fails_hard env cid c msg \<Longrightarrow>
     delete_one env cid w = (Inr (Some (c, msg)), w\<lparr>trace := trace w @ delete_events env cid\<rparr>)"
  by (auto simp: fails_hard_def delete_one_def delete_events_def monad_defs)

lemma delete_loop_ok:
  "list_all (deleted_or_absent env) ids \<Longrightarrow>
     delete_loop env acc ids w =
       (Inr \<lparr>checkpoint_ids = acc @ ids, error = None\<rparr>,
        w\<lparr>trace := trace w @ concat (map (delete_events env) ids)\<rparr>)"
  by (induction ids arbitrary: acc w) (auto simp: delete_one_ok and_then_def return_ok_def)

lemma delete_loop_partial:
  "list_all (deleted_or_absent env) pre \<Longrightarrow> fails_hard env b c msg \<Longrightarrow>
     delete_loop env acc (pre @ b # post) w =
       (Inr \<lparr>checkpoint_ids = acc @ pre, error = Some (c, msg)\<rparr>,
        w\<lparr>trace := trace w @ concat (map (delete_events env) (pre @ [b]))\<rparr>)"
  by (induction pre arbitrary: acc w)
     (auto simp: delete_one_ok delete_one_hard and_then_def return_ok_def)

lemma delete_one_not_raise:
  "raises_only_libvirtError env cid \<Longrightarrow> \<not> isl (fst (delete_one env cid w))"
  by (auto simp: raises_only_libvirtError_def is_libvirtError_def delete_one_def monad_defs
        split: sum.splits exn.splits)

lemma delete_loop_not_raise:
  "list_all (raises_only_libvirtError env) ids \<Longrightarrow> \<not> isl (fst (delete_loop env acc ids w))"
proof (induction ids arbitrary: acc w)
  case Nil
  then show ?case by (simp add: return_ok_def)
next
  case (Cons cid ids)
  obtain r w1 where d: "delete_one env cid w = (r, w1)" by (cases "delete_one env cid w")
  with Cons.prems delete_one_not_raise [of env cid w] obtain v where "r = Inr v"
    by (cases r) auto
  with d Cons show ?case
    by (cases v) (auto simp: and_then_def return_ok_def)
qed

lemma delete_one_other:
  "raises_other env cid e \<Longrightarrow>
     delete_one env cid w = (Inl e, w\<lparr>trace := trace w @ delete_events env cid\<rparr>)"
  by (cases e)
     (auto simp: raises_other_def is_libvirtError_def delete_one_def delete_events_def monad_defs)

lemma delete_loop_other:
  "list_all (deleted_or_absent env) pre \<Longrightarrow> raises_other env b e \<Longrightarrow>
     delete_loop env acc (pre @ b # post) w =
       (Inl e, w\<lparr>trace := trace w @ concat (map (delete_events env) (pre @ [b]))\<rparr>)"
  by (induction pre arbitrary: acc w)
     (auto simp: delete_one_ok delete_one_other and_then_def return_ok_def)

text \<open>
  C5, as the code has it. \<^verbatim>\<open>delete_checkpoints\<close> goes through the ids in order. If every
  checkpoint is deleted or reported absent, all ids are returned, without an error. If those
  of \<open>pre\<close> are deleted or absent and deleting \<open>b\<close> fails with another hypervisor error, the
  result is a success payload with exactly \<open>pre\<close> and the code and message of the error, and
  no call is made for the ids after \<open>b\<close>. As long as the hypervisor raises nothing but
  \<^verbatim>\<open>libvirtError\<close>, the function does not raise. If deleting \<open>b\<close> raises any other exception,
  the function raises it, after the same calls, and returns no list.
\<close>

theorem delete_checkpoints_partial_progress:
  "(list_all (deleted_or_absent env) ids \<longrightarrow>
      delete_checkpoints env ids w =
        (Inr \<lparr>checkpoint_ids = ids, error = None\<rparr>,
         w\<lparr>trace := trace w @ concat (map (delete_events env) ids)\<rparr>))
   \<and> (list_all (deleted_or_absent env) pre \<and> fails_hard env b c msg \<longrightarrow>
      delete_checkpoints env (pre @ b # post) w =
        (Inr \<lparr>checkpoint_ids = pre, error = Some (c, msg)\<rparr>,
         w\<lparr>trace := trace w @ concat (map (delete_events env) (pre @ [b]))\<rparr>))
   \<and> (list_all (raises_only_libvirtError env) ids \<longrightarrow>
      \<not> isl (fst (delete_checkpoints env ids w)))
   \<and> (list_all (deleted_or_absent env) pre \<and> raises_other env b e \<longrightarrow>
      delete_checkpoints env (pre @ b # post) w =
        (Inl e, w\<lparr>trace := trace w @ concat (map (delete_events env) (pre @ [b]))\<rparr>))"
  using delete_loop_ok [of env ids "[]" w] delete_loop_partial [of env pre b c msg "[]" post w]
    delete_loop_not_raise [of env ids "[]" w] delete_loop_other [of env pre b e "[]" post w]
  by (simp add: delete_checkpoints_def)

theorem delete_checkpoints_partial_progress_witness:
  "delete_checkpoints delete_b_fails_env [''a'', ''b'', ''c''] fresh_world =
     (Inr \<lparr>checkpoint_ids = [''a''], error = Some (VIR_ERR_OTHER 1, ''internal error'')\<rparr>,
      \<lparr>transient_disks = [],
       trace = [CheckpointLookupByName ''a'', CheckpointLookupByName ''b'', CheckpointDelete ''b'']\<rparr>)"
proof -
  have "list_all (deleted_or_absent delete_b_fails_env) [''a''] \<and>
        fails_hard delete_b_fails_env ''b'' (VIR_ERR_OTHER 1) ''internal error''"
    by (simp add: deleted_or_absent_def fails_hard_def delete_b_fails_env_def happy_env_def)
  with delete_checkpoints_partial_progress
         [of delete_b_fails_env "[]" fresh_world "[''a'']" "''b''" "VIR_ERR_OTHER 1" "''internal error''" "[''c'']"]
  have "delete_checkpoints delete_b_fails_env ([''a''] @ ''b'' # [''c'']) fresh_world =
        (Inr \<lparr>checkpoint_ids = [''a''], error = Some (VIR_ERR_OTHER 1, ''internal error'')\<rparr>,
         fresh_world\<lparr>trace := trace fresh_world @ concat (map (delete_events delete_b_fails_env) ([''a''] @ [''b'']))\<rparr>)"
    by blast
  moreover have "fresh_world\<lparr>trace := trace fresh_world @ concat (map (delete_events delete_b_fails_env) ([''a''] @ [''b'']))\<rparr>
     = \<lparr>transient_disks = [],
       trace = [CheckpointLookupByName ''a'', CheckpointLookupByName ''b'', CheckpointDelete ''b'']\<rparr>"
    by code_simp
  ultimately show ?thesis by simp
qed

text \<open>
  C5 as stated fails: a failure that is not a \<^verbatim>\<open>libvirtError\<close> is not caught. Here checkpoint
  \<^verbatim>\<open>a\<close> is deleted, the lookup of \<^verbatim>\<open>b\<close> raises \<^verbatim>\<open>NotConnectedError\<close>, and the function
  raises it instead of returning the list with \<^verbatim>\<open>a\<close>.
\<close>

theorem delete_checkpoints_not_connected_counterexample:
  "checkpointLookupByName disconnected_at_b_env ''a'' = Inr () \<and>
   checkpoint_delete disconnected_at_b_env ''a'' = Inr () \<and>
   checkpointLookupByName disconnected_at_b_env ''b'' = Inl NotConnectedError \<and>
   delete_checkpoints disconnected_at_b_env [''a'', ''b'', ''c''] fresh_world =
     (Inl NotConnectedError,
      \<lparr>transient_disks = [],
       trace = [CheckpointLookupByName ''a'', CheckpointDelete ''a'', CheckpointLookupByName ''b'']\<rparr>)"
  by code_simp

lemma backup_disk_element_eq:
  assumes "scratch_disk d = Some sd"
  shows "backup_disk_element ddo from_id d =
     Inr (Element ''disk''
            ([(''name'', Some (name d)), (''type'', Some (disk_type_str (sd_type sd)))] @
             (case backup_mode d of
                None \<Rightarrow> []
              | Some MODE_FULL \<Rightarrow> [(''backupmode'', Some ''full'')]
              | Some MODE_INCREMENTAL \<Rightarrow>
                  [(''backupmode'', Some ''incremental''), (''incremental'', from_id)]))
            None [ddo (scratch_element sd)])"
proof (cases "backup_mode d")
  case None
  with assms show ?thesis
    by (simp add: backup_disk_element_def appendChild_def scratch_element_def)
next
  case (Some m)
  with assms show ?thesis
    by (cases m)
       (simp_all add: backup_disk_element_def appendChild_def scratch_element_def set_attr_def
          mode_str_def)
qed

lemma backup_disk_element_None:
  "scratch_disk d = None \<Longrightarrow> backup_disk_element ddo from_id d = Inl AttributeError"
  by (simp add: backup_disk_element_def)

lemma backup_disk_element_Inr:
  assumes "backup_disk_element ddo from_id d = Inr e"
  shows "describes ddo from_id d e"
proof (cases "scratch_disk d")
  case None
  with assms show ?thesis by (simp add: backup_disk_element_None)
next
  case (Some sd)
  note eq = backup_disk_element_eq [OF Some, of ddo from_id]
  show ?thesis
  proof (cases "backup_mode d")
    case None
    with eq assms Some show ?thesis
      by (auto simp: describes_def scratch_element_def)
  next
    case m: (Some m)
    show ?thesis
    proof (cases m)
      case MODE_FULL
      with eq assms Some m show ?thesis
        by (auto simp: describes_def scratch_element_def mode_str_def)
    next
      case MODE_INCREMENTAL
      with eq assms Some m show ?thesis
        by (auto simp: describes_def scratch_element_def mode_str_def)
    qed
  qed
qed

lemma backup_disk_element_serialisable:
  assumes "backup_disk_element ddo from_id d = Inr e" "serialisable e"
  shows "backup_mode d = Some MODE_INCREMENTAL \<longrightarrow> from_id \<noteq> None"
proof (cases "scratch_disk d")
  case None
  with assms show ?thesis by (simp add: backup_disk_element_None)
next
  case (Some sd)
  from backup_disk_element_eq [OF Some, of ddo from_id] assms show ?thesis
    by auto
qed

lemma backup_disk_element_serialisable_iff:
  assumes "scratch_disk d = Some sd"
  shows "serialisable (projr (backup_disk_element ddo from_id d)) \<longleftrightarrow>
           (backup_mode d = Some MODE_INCREMENTAL \<longrightarrow> from_id \<noteq> None) \<and>
           serialisable (ddo (scratch_element sd))"
  using backup_disk_element_eq [OF assms, of ddo from_id]
  by (auto split: option.splits backup_mode.splits)

lemma backup_disks_loop_Inr:
  assumes "backup_disks_loop ddo from_id ds acc = Inr res"
  shows "\<exists>entries. res = Element (xml_tag acc) (xml_attrs acc) (xml_text acc) (xml_children acc @ entries) \<and>
           list_all2 (\<lambda>d e. backup_disk_element ddo from_id d = Inr e) ds entries"
  using assms
proof (induction ds arbitrary: acc)
  case Nil
  then show ?case by simp
next
  case (Cons d ds)
  from Cons.prems obtain e where e: "backup_disk_element ddo from_id d = Inr e"
    and r: "backup_disks_loop ddo from_id ds (appendChild acc e) = Inr res"
    by (auto split: sum.splits)
  from Cons.IH [OF r] obtain entries where
    "res = Element (xml_tag acc) (xml_attrs acc) (xml_text acc) (xml_children acc @ e # entries)"
    "list_all2 (\<lambda>d e. backup_disk_element ddo from_id d = Inr e) ds entries"
    by (auto simp: appendChild_def)
  with e have "res = Element (xml_tag acc) (xml_attrs acc) (xml_text acc) (xml_children acc @ (e # entries)) \<and>
     list_all2 (\<lambda>d e. backup_disk_element ddo from_id d = Inr e) (d # ds) (e # entries)"
    by simp
  then show ?case by blast
qed

lemma backup_disks_loop_total:
  assumes "list_all (\<lambda>d. scratch_disk d \<noteq> None) ds"
  shows "\<not> isl (backup_disks_loop ddo from_id ds acc)"
  using assms
proof (induction ds arbitrary: acc)
  case Nil
  then show ?case by simp
next
  case (Cons d ds)
  then obtain sd where "scratch_disk d = Some sd" by auto
  from backup_disk_element_eq [OF this, of ddo from_id] Cons show ?case
    by simp
qed

lemma entries_describe:
  "list_all2 (\<lambda>d e. backup_disk_element ddo from_id d = Inr e) ds entries \<Longrightarrow>
     list_all2 (describes ddo from_id) ds entries"
  by (erule list_all2_mono) (rule backup_disk_element_Inr)

lemma entries_incremental:
  "list_all2 (\<lambda>d e. backup_disk_element ddo from_id d = Inr e) ds entries \<Longrightarrow>
   list_all serialisable entries \<Longrightarrow>
     list_all (\<lambda>d. backup_mode d = Some MODE_INCREMENTAL \<longrightarrow> from_id \<noteq> None) ds"
  by (induction rule: list_all2_induct) (auto dest: backup_disk_element_serialisable)

lemma entries_serialisable:
  assumes "\<And>e. serialisable e \<Longrightarrow> serialisable (ddo e)"
  shows "list_all2 (\<lambda>d e. backup_disk_element ddo from_id d = Inr e) ds entries \<Longrightarrow>
   list_all (\<lambda>d. scratch_disk d \<noteq> None \<and> (backup_mode d = Some MODE_INCREMENTAL \<longrightarrow> from_id \<noteq> None)) ds \<Longrightarrow>
     list_all serialisable entries"
proof (induction rule: list_all2_induct)
  case Nil
  then show ?case by simp
next
  case (Cons d e ds es)
  then obtain sd where sd: "scratch_disk d = Some sd" by auto
  have "serialisable (ddo (scratch_element sd))"
    by (rule assms) (simp add: scratch_element_def)
  with backup_disk_element_serialisable_iff [OF sd, of ddo from_id] Cons show ?case
    by simp
qed

lemma create_backup_xml_unfold:
  "create_backup_xml ddo addr drives from_id =
     (case backup_disks_loop ddo from_id (map snd drives) (Element ''disks'' [] None []) of
        Inl e \<Rightarrow> Inl e
      | Inr disks_elem \<Rightarrow>
          tostring (Element ''domainbackup'' [(''mode'', Some ''pull'')] None
            ((case from_id of Some c \<Rightarrow> [Element ''incremental'' [] (Some c) []] | None \<Rightarrow> []) @
             [Element ''server''
                [(''transport'', Some (transport addr)), (''socket'', Some (socket addr))] None [],
              disks_elem])))"
  by (simp add: create_backup_xml_def appendChild_def appendTextNode_def Let_def
        split: option.splits sum.splits)

text \<open>
  C6. A backup descriptor that \<^verbatim>\<open>create_backup_xml\<close> returns is a \<^verbatim>\<open>domainbackup\<close> in pull
  mode; it holds the checkpoint to diff from when there is one, the server with the
  transport and the socket of the address, and the disks: one entry per drive, in order,
  each as \<open>describes\<close> has it; and \<^verbatim>\<open>from_checkpoint_id\<close> is set if a drive is incremental. A
  descriptor is returned whenever every drive has a scratch disk, \<^verbatim>\<open>from_checkpoint_id\<close>
  is set if a drive is incremental, and \<^verbatim>\<open>disable_dynamic_ownership\<close> keeps an element
  serialisable.
\<close>

theorem create_backup_xml_descriptor:
  "(\<forall>doc. create_backup_xml ddo addr drives from_id = Inr doc \<longrightarrow>
      xml_tag doc = ''domainbackup'' \<and>
      xml_attrs doc = [(''mode'', Some ''pull'')] \<and>
      (\<exists>disks_elem.
         xml_children doc =
           (case from_id of Some c \<Rightarrow> [Element ''incremental'' [] (Some c) []] | None \<Rightarrow> []) @
           [Element ''server''
              [(''transport'', Some (transport addr)), (''socket'', Some (socket addr))] None [],
            disks_elem] \<and>
         xml_tag disks_elem = ''disks'' \<and>
         list_all2 (describes ddo from_id) (map snd drives) (xml_children disks_elem)) \<and>
      list_all (\<lambda>d. backup_mode d = Some MODE_INCREMENTAL \<longrightarrow> from_id \<noteq> None) (map snd drives))
   \<and> (list_all (\<lambda>d. scratch_disk d \<noteq> None \<and>
                    (backup_mode d = Some MODE_INCREMENTAL \<longrightarrow> from_id \<noteq> None)) (map snd drives) \<and>
       (\<forall>e. serialisable e \<longrightarrow> serialisable (ddo e)) \<longrightarrow>
      \<not> isl (create_backup_xml ddo addr drives from_id))"
proof (intro conjI allI impI)
  fix doc
  assume a: "create_backup_xml ddo addr drives from_id = Inr doc"
  then obtain disks_elem where
    l: "backup_disks_loop ddo from_id (map snd drives) (Element ''disks'' [] None []) = Inr disks_elem"
    and t: "tostring (Element ''domainbackup'' [(''mode'', Some ''pull'')] None
            ((case from_id of Some c \<Rightarrow> [Element ''incremental'' [] (Some c) []] | None \<Rightarrow> []) @
             [Element ''server''
                [(''transport'', Some (transport addr)), (''socket'', Some (socket addr))] None [],
              disks_elem])) = Inr doc"
    by (auto simp: create_backup_xml_unfold split: sum.splits)
  from backup_disks_loop_Inr [OF l] obtain entries where
    e: "disks_elem = Element ''disks'' [] None entries"
       "list_all2 (\<lambda>d e. backup_disk_element ddo from_id d = Inr e) (map snd drives) entries"
    by auto
  from t have doc: "doc = Element ''domainbackup'' [(''mode'', Some ''pull'')] None
            ((case from_id of Some c \<Rightarrow> [Element ''incremental'' [] (Some c) []] | None \<Rightarrow> []) @
             [Element ''server''
                [(''transport'', Some (transport addr)), (''socket'', Some (socket addr))] None [],
              disks_elem])"
    and ser: "serialisable doc"
    by (auto simp: tostring_def split: if_splits)
  from ser doc e have "list_all serialisable entries" by simp
  from entries_incremental [OF e(2) this]
  show "list_all (\<lambda>d. backup_mode d = Some MODE_INCREMENTAL \<longrightarrow> from_id \<noteq> None) (map snd drives)" .
  show "xml_tag doc = ''domainbackup''" using doc by simp
  show "xml_attrs doc = [(''mode'', Some ''pull'')]" using doc by simp
  have "xml_children doc =
           (case from_id of Some c \<Rightarrow> [Element ''incremental'' [] (Some c) []] | None \<Rightarrow> []) @
           [Element ''server''
              [(''transport'', Some (transport addr)), (''socket'', Some (socket addr))] None [],
            disks_elem] \<and>
         xml_tag disks_elem = ''disks'' \<and>
         list_all2 (describes ddo from_id) (map snd drives) (xml_children disks_elem)"
    using doc e entries_describe [OF e(2)] by simp
  then show "\<exists>disks_elem.
         xml_children doc =
           (case from_id of Some c \<Rightarrow> [Element ''incremental'' [] (Some c) []] | None \<Rightarrow> []) @
           [Element ''server''
              [(''transport'', Some (transport addr)), (''socket'', Some (socket addr))] None [],
            disks_elem] \<and>
         xml_tag disks_elem = ''disks'' \<and>
         list_all2 (describes ddo from_id) (map snd drives) (xml_children disks_elem)"
    by blast
next
  assume a: "list_all (\<lambda>d. scratch_disk d \<noteq> None \<and>
                    (backup_mode d = Some MODE_INCREMENTAL \<longrightarrow> from_id \<noteq> None)) (map snd drives) \<and>
       (\<forall>e. serialisable e \<longrightarrow> serialisable (ddo e))"
  then have "list_all (\<lambda>d. scratch_disk d \<noteq> None) (map snd drives)"
    by (simp add: list_all_iff)
  from backup_disks_loop_total [OF this, of ddo from_id "Element ''disks'' [] None []"]
  obtain disks_elem where
    l: "backup_disks_loop ddo from_id (map snd drives) (Element ''disks'' [] None []) = Inr disks_elem"
    by (cases "backup_disks_loop ddo from_id (map snd drives) (Element ''disks'' [] None [])") auto
  from backup_disks_loop_Inr [OF l] obtain entries where
    e: "disks_elem = Element ''disks'' [] None entries"
       "list_all2 (\<lambda>d e. backup_disk_element ddo from_id d = Inr e) (map snd drives) entries"
    by auto
  have "list_all serialisable entries"
    using entries_serialisable [OF _ e(2)] a by blast
  with l e show "\<not> isl (create_backup_xml ddo addr drives from_id)"
    by (simp add: create_backup_xml_unfold tostring_def split: option.splits)
qed

theorem create_backup_xml_descriptor_witness:
  "create_backup_xml seclabel (UnixAddress ''/run/vdsm/backup/b1'') two_drives (Some ''cp1'') =
     Inr (Element ''domainbackup'' [(''mode'', Some ''pull'')] None
       [Element ''incremental'' [] (Some ''cp1'') [],
        Element ''server'' [(''transport'', Some ''unix''), (''socket'', Some ''/run/vdsm/backup/b1'')]
          None [],
        Element ''disks'' [] None
          [Element ''disk''
             [(''name'', Some ''vda''), (''type'', Some ''file''), (''backupmode'', Some ''full'')] None
             [Element ''scratch'' [(''file'', Some ''/var/tmp/b1.vda'')] None
                [Element ''seclabel'' [(''model'', Some ''dac'')] None []]],
           Element ''disk''
             [(''name'', Some ''sdb''), (''type'', Some ''block''),
              (''backupmode'', Some ''incremental''), (''incremental'', Some ''cp1'')] None
             [Element ''scratch'' [(''dev'', Some ''/dev/vg/scratch-sdb'')] None
                [Element ''seclabel'' [(''model'', Some ''dac'')] None []]]]]) \<and>
   xml_tag (projr (create_backup_xml seclabel (UnixAddress ''/run/vdsm/backup/b1'') two_drives
                     (Some ''cp1''))) = ''domainbackup''"
proof -
  let ?r = "create_backup_xml seclabel (UnixAddress ''/run/vdsm/backup/b1'') two_drives (Some ''cp1'')"
  have s: "\<forall>e. serialisable e \<longrightarrow> serialisable (seclabel e)"
  proof (intro allI impI)
    fix e assume "serialisable e"
    then show "serialisable (seclabel e)"
      by (cases e) (simp add: seclabel_def appendChild_def)
  qed
  have "list_all (\<lambda>d. scratch_disk d \<noteq> None \<and>
                    (backup_mode d = Some MODE_INCREMENTAL \<longrightarrow> Some ''cp1'' \<noteq> None)) (map snd two_drives)"
    by (simp add: two_drives_def)
  with s create_backup_xml_descriptor
         [of seclabel "UnixAddress ''/run/vdsm/backup/b1''" two_drives "Some ''cp1''"]
  have "\<not> isl ?r" by blast
  then obtain doc where d: "?r = Inr doc" by (cases ?r) auto
  with create_backup_xml_descriptor
         [of seclabel "UnixAddress ''/run/vdsm/backup/b1''" two_drives "Some ''cp1''"]
  have "xml_tag doc = ''domainbackup''" by blast
  with d have "xml_tag (projr ?r) = ''domainbackup''" by simp
  moreover have "?r = Inr (Element ''domainbackup'' [(''mode'', Some ''pull'')] None
       [Element ''incremental'' [] (Some ''cp1'') [],
        Element ''server'' [(''transport'', Some ''unix''), (''socket'', Some ''/run/vdsm/backup/b1'')]
          None [],
        Element ''disks'' [] None
          [Element ''disk''
             [(''name'', Some ''vda''), (''type'', Some ''file''), (''backupmode'', Some ''full'')] None
             [Element ''scratch'' [(''file'', Some ''/var/tmp/b1.vda'')] None
                [Element ''seclabel'' [(''model'', Some ''dac'')] None []]],
           Element ''disk''
             [(''name'', Some ''sdb''), (''type'', Some ''block''),
              (''backupmode'', Some ''incremental''), (''incremental'', Some ''cp1'')] None
             [Element ''scratch'' [(''dev'', Some ''/dev/vg/scratch-sdb'')] None
                [Element ''seclabel'' [(''model'', Some ''dac'')] None []]]]])"
    by code_simp
  ultimately show ?thesis by simp
qed

text \<open>
  C7 fails on the code for the creation time 0, which \<^verbatim>\<open>properties.Integer(minval=0)\<close>
  accepts: \<^verbatim>\<open>if backup_cfg.creation_time:\<close> is false for it and the descriptor has no
  \<^verbatim>\<open>creationTime\<close>, while the creation time 1 is written.
\<close>

theorem create_checkpoint_xml_zero_creation_time:
  "map_sum id creation_time (BackupConfig_init epoch_config) = Inr (Some 0) \<and>
   map_sum id (\<lambda>cfg. create_checkpoint_xml cfg []) (BackupConfig_init epoch_config) =
     Inr (Inr (Some (Element ''domaincheckpoint'' [] None
       [Element ''name'' [] (Some ''cp1'') [],
        Element ''description'' [] (Some (''checkpoint for backup '' @ [CHR 0x27] @ ''b1'' @ [CHR 0x27])) []]))) \<and>
   map_sum id (\<lambda>cfg. create_checkpoint_xml cfg [])
       (BackupConfig_init (epoch_config\<lparr>k_creation_time := Some 1\<rparr>)) =
     Inr (Inr (Some (Element ''domaincheckpoint'' [] None
       [Element ''name'' [] (Some ''cp1'') [],
        Element ''description'' [] (Some (''checkpoint for backup '' @ [CHR 0x27] @ ''b1'' @ [CHR 0x27])) [],
        Element ''creationTime'' [] (Some ''1'') []])))"
  by code_simp

lemma checkpoint_disks_loop_Inr:
  assumes "checkpoint_disks_loop (Some to_id) drives ds acc = Inr res"
  shows "\<exists>entries. res = Element (xml_tag acc) (xml_attrs acc) (xml_text acc) (xml_children acc @ entries) \<and>
           list_all2 (bitmap_entry to_id drives) (filter checkpoint ds) entries"
  using assms
proof (induction ds arbitrary: acc)
  case Nil
  then show ?case by simp
next
  case (Cons d ds)
  show ?case
  proof (cases "checkpoint d")
    case False
    with Cons show ?thesis by simp
  next
    case True
    with Cons.prems obtain drive where dr: "map_of drives (img_id d) = Some drive"
      and r: "checkpoint_disks_loop (Some to_id) drives ds
                (appendChild acc (Element ''disk''
                        [(''name'', Some (name drive)), (''checkpoint'', Some ''bitmap''),
                         (''bitmap'', Some to_id)] None [])) = Inr res"
      by (auto split: option.splits)
    let ?e = "Element ''disk''
                        [(''name'', Some (name drive)), (''checkpoint'', Some ''bitmap''),
                         (''bitmap'', Some to_id)] None []"
    from Cons.IH [OF r] obtain entries where
      "res = Element (xml_tag acc) (xml_attrs acc) (xml_text acc) (xml_children acc @ ?e # entries)"
      "list_all2 (bitmap_entry to_id drives) (filter checkpoint ds) entries"
      by (auto simp: appendChild_def)
    with dr True have
      "res = Element (xml_tag acc) (xml_attrs acc) (xml_text acc) (xml_children acc @ (?e # entries)) \<and>
       list_all2 (bitmap_entry to_id drives) (filter checkpoint (d # ds)) (?e # entries)"
      by (simp add: bitmap_entry_def)
    then show ?thesis by blast
  qed
qed

lemma create_checkpoint_xml_unfold:
  "to_checkpoint_id cfg = Some to_id \<Longrightarrow>
   create_checkpoint_xml cfg drives =
     (if disks cfg \<noteq> []
      then (case checkpoint_disks_loop (Some to_id) drives (disks cfg) (Element ''disks'' [] None []) of
              Inl e \<Rightarrow> Inl e
            | Inr disks_elem \<Rightarrow>
                map_sum id Some (tostring (Element ''domaincheckpoint'' [] None
                  (checkpoint_head cfg to_id @ [disks_elem]))))
      else map_sum id Some (tostring (Element ''domaincheckpoint'' [] None (checkpoint_head cfg to_id))))"
  by (simp add: create_checkpoint_xml_def checkpoint_head_def appendChild_def appendTextNode_def Let_def
        split: option.splits sum.splits)

text \<open>
  X1. What \<^verbatim>\<open>create_checkpoint_xml\<close> does: it returns \<^verbatim>\<open>None\<close> exactly when no checkpoint is
  requested; a descriptor it returns is a \<^verbatim>\<open>domaincheckpoint\<close> with the name, the description
  that embeds the backup id, the parent when there is one, the creation time when it is set
  and not 0, and, only when the config lists disks, a disks section with one bitmap entry
  per disk flagged for the checkpoint, in order.
\<close>

theorem create_checkpoint_xml_descriptor:
  "(create_checkpoint_xml cfg drives = Inr None \<longleftrightarrow> to_checkpoint_id cfg = None)
   \<and> (\<forall>doc. create_checkpoint_xml cfg drives = Inr (Some doc) \<longrightarrow>
        (\<exists>to_id. to_checkpoint_id cfg = Some to_id \<and>
           xml_tag doc = ''domaincheckpoint'' \<and>
           (if disks cfg = []
            then xml_children doc = checkpoint_head cfg to_id
            else (\<exists>entries.
                    xml_children doc = checkpoint_head cfg to_id @ [Element ''disks'' [] None entries] \<and>
                    list_all2 (bitmap_entry to_id drives) (filter checkpoint (disks cfg)) entries))))"
proof (intro conjI allI impI)
  show "create_checkpoint_xml cfg drives = Inr None \<longleftrightarrow> to_checkpoint_id cfg = None"
  proof (cases "to_checkpoint_id cfg")
    case None
    then show ?thesis by (simp add: create_checkpoint_xml_def)
  next
    case (Some to_id)
    from create_checkpoint_xml_unfold [OF Some, of drives] Some show ?thesis
      by (auto simp: tostring_def split: sum.splits if_splits)
  qed
next
  fix doc
  assume a: "create_checkpoint_xml cfg drives = Inr (Some doc)"
  then obtain to_id where t: "to_checkpoint_id cfg = Some to_id"
    by (cases "to_checkpoint_id cfg") (auto simp: create_checkpoint_xml_def)
  note u = create_checkpoint_xml_unfold [OF t, of drives]
  show "\<exists>to_id. to_checkpoint_id cfg = Some to_id \<and>
           xml_tag doc = ''domaincheckpoint'' \<and>
           (if disks cfg = []
            then xml_children doc = checkpoint_head cfg to_id
            else (\<exists>entries.
                    xml_children doc = checkpoint_head cfg to_id @ [Element ''disks'' [] None entries] \<and>
                    list_all2 (bitmap_entry to_id drives) (filter checkpoint (disks cfg)) entries))"
  proof (cases "disks cfg = []")
    case True
    with a u have "doc = Element ''domaincheckpoint'' [] None (checkpoint_head cfg to_id)"
      by (auto simp: tostring_def split: if_splits)
    with t True show ?thesis by simp
  next
    case False
    with a u obtain disks_elem where
      l: "checkpoint_disks_loop (Some to_id) drives (disks cfg) (Element ''disks'' [] None []) = Inr disks_elem"
      and d: "doc = Element ''domaincheckpoint'' [] None (checkpoint_head cfg to_id @ [disks_elem])"
      by (auto simp: tostring_def split: sum.splits if_splits)
    from checkpoint_disks_loop_Inr [OF l] obtain entries where
      "disks_elem = Element ''disks'' [] None entries"
      "list_all2 (bitmap_entry to_id drives) (filter checkpoint (disks cfg)) entries"
      by auto
    with d t False show ?thesis by auto
  qed
qed

theorem create_checkpoint_xml_descriptor_witness:
  "create_checkpoint_xml checkpoint_cfg two_drives =
     Inr (Some (Element ''domaincheckpoint'' [] None
       [Element ''name'' [] (Some ''cp2'') [],
        Element ''description'' [] (Some (''checkpoint for backup '' @ [CHR 0x27] @ ''b1'' @ [CHR 0x27])) [],
        Element ''parent'' [] None [Element ''name'' [] (Some ''cp1'') []],
        Element ''creationTime'' [] (Some ''1234'') [],
        Element ''disks'' [] None
          [Element ''disk''
             [(''name'', Some ''sdb''), (''checkpoint'', Some ''bitmap''), (''bitmap'', Some ''cp2'')]
             None []]])) \<and>
   create_checkpoint_xml checkpoint_cfg two_drives \<noteq> Inr None"
proof -
  have "to_checkpoint_id checkpoint_cfg \<noteq> None"
    by (simp add: checkpoint_cfg_def)
  with create_checkpoint_xml_descriptor [of checkpoint_cfg two_drives]
  have "create_checkpoint_xml checkpoint_cfg two_drives \<noteq> Inr None"
    by blast
  moreover have "create_checkpoint_xml checkpoint_cfg two_drives =
     Inr (Some (Element ''domaincheckpoint'' [] None
       [Element ''name'' [] (Some ''cp2'') [],
        Element ''description'' [] (Some (''checkpoint for backup '' @ [CHR 0x27] @ ''b1'' @ [CHR 0x27])) [],
        Element ''parent'' [] None [Element ''name'' [] (Some ''cp1'') []],
        Element ''creationTime'' [] (Some ''1234'') [],
        Element ''disks'' [] None
          [Element ''disk''
             [(''name'', Some ''sdb''), (''checkpoint'', Some ''bitmap''), (''bitmap'', Some ''cp2'')]
             None []]]))"
    by code_simp
  ultimately show ?thesis by simp
qed

lemma create_transient_disk_succeeds:
  "creation_succeeds env bid d \<Longrightarrow> \<not> isl (fst (create_transient_disk env bid d w))"
  by (auto simp: creation_succeeds_def create_transient_disk_def get_drive_capacity_def
        irs_create_transient_disk_def monad_defs Let_def transient_disk_name_def
        split: sum.splits prod.splits)

lemma lacks_scratch_disk_eq: "lacks_scratch_disk = (\<lambda>d. scratch_disk d = None)"
  by (auto simp: lacks_scratch_disk_def)

lemma create_scratch_disks_total:
  "list_all (creation_succeeds env bid) (filter lacks_scratch_disk (map snd drives)) \<Longrightarrow>
     \<not> isl (fst (create_scratch_disks env bid drives w))"
proof (induction drives arbitrary: w)
  case Nil
  then show ?case by (simp add: return_ok_def)
next
  case (Cons kd rest)
  show ?case
  proof (cases "scratch_disk (snd kd) = None")
    case False
    with Cons.prems have "list_all (creation_succeeds env bid) (filter lacks_scratch_disk (map snd rest))"
      by (simp add: lacks_scratch_disk_eq)
    from Cons.IH [OF this, of w] obtain rest' w1 where
      "create_scratch_disks env bid rest w = (Inr rest', w1)"
      by (cases "create_scratch_disks env bid rest w"; cases "fst (create_scratch_disks env bid rest w)") auto
    with False show ?thesis
      by (simp add: and_then_def return_ok_def)
  next
    case True
    with Cons.prems have "creation_succeeds env bid (snd kd)"
      by (simp add: lacks_scratch_disk_eq)
    from create_transient_disk_succeeds [OF this, of w] obtain p w1 where
      c: "create_transient_disk env bid (snd kd) w = (Inr p, w1)"
      by (cases "create_transient_disk env bid (snd kd) w"; cases "fst (create_transient_disk env bid (snd kd) w)") auto
    from Cons.prems True have "list_all (creation_succeeds env bid) (filter lacks_scratch_disk (map snd rest))"
      by (simp add: lacks_scratch_disk_eq)
    from Cons.IH [OF this, of w1] obtain rest' w2 where
      "create_scratch_disks env bid rest w1 = (Inr rest', w2)"
      by (cases "create_scratch_disks env bid rest w1"; cases "fst (create_scratch_disks env bid rest w1)") auto
    with c True show ?thesis
      by (simp add: and_then_def try_except_def return_ok_def)
  qed
qed

text \<open>
  C8. When \<^verbatim>\<open>_create_scratch_disks\<close> returns, it has made, for each drive without a scratch
  disk and in order, one block-info call and one creation of the transient disk named
  \<^verbatim>\<open>{backup_id}.{drive_name}\<close>, sized to the capacity that the block-info call reported;
  the drives that had a scratch disk are skipped and keep it, the others get the created
  disk, of type file. It returns whenever each of these creations succeeds.
\<close>

theorem create_scratch_disks_one_per_drive:
  "(\<forall>drives' w'. create_scratch_disks env bid drives w = (Inr drives', w') \<longrightarrow>
      new_events w w' =
        concat (map (expected_creation env bid) (filter lacks_scratch_disk (map snd drives))) \<and>
      list_all (\<lambda>d. \<not> isl (blockInfo env (path d))) (filter lacks_scratch_disk (map snd drives)) \<and>
      transient_disks w' =
        transient_disks w @ map (transient_disk_name bid) (filter lacks_scratch_disk (map snd drives)) \<and>
      drives' = map (\<lambda>kd. (fst kd, with_scratch_disk env bid (snd kd))) drives)
   \<and> (list_all (creation_succeeds env bid) (filter lacks_scratch_disk (map snd drives)) \<longrightarrow>
      \<not> isl (fst (create_scratch_disks env bid drives w)))"
proof (intro conjI allI impI)
  fix drives' w'
  assume a: "create_scratch_disks env bid drives w = (Inr drives', w')"
  note r = create_scratch_disks_Inr [OF a]
  from r show "new_events w w' =
        concat (map (expected_creation env bid) (filter lacks_scratch_disk (map snd drives)))"
    by (simp add: new_events_def)
  from r show "list_all (\<lambda>d. \<not> isl (blockInfo env (path d))) (filter lacks_scratch_disk (map snd drives))"
    by blast
  from r show "transient_disks w' =
        transient_disks w @ map (transient_disk_name bid) (filter lacks_scratch_disk (map snd drives))"
    by blast
  from r show "drives' = map (\<lambda>kd. (fst kd, with_scratch_disk env bid (snd kd))) drives"
    by blast
next
  assume "list_all (creation_succeeds env bid) (filter lacks_scratch_disk (map snd drives))"
  then show "\<not> isl (fst (create_scratch_disks env bid drives w))"
    by (rule create_scratch_disks_total)
qed

theorem create_scratch_disks_one_per_drive_witness:
  "new_events fresh_world (snd (create_scratch_disks happy_env ''b1'' three_drives fresh_world)) =
     [BlockInfo ''/dev/vda'', CreateTransientDisk ''b1.vda'' 100,
      BlockInfo ''/dev/sdb'', CreateTransientDisk ''b1.sdb'' 100] \<and>
   transient_disks (snd (create_scratch_disks happy_env ''b1'' three_drives fresh_world)) =
     [''b1.vda'', ''b1.sdb''] \<and>
   blockInfo happy_env ''/dev/vda'' = Inr (100, 40, 50)"
proof -
  obtain r w' where c: "create_scratch_disks happy_env ''b1'' three_drives fresh_world = (r, w')"
    by (cases "create_scratch_disks happy_env ''b1'' three_drives fresh_world")
  have "list_all (creation_succeeds happy_env ''b1'') (filter lacks_scratch_disk (map snd three_drives))"
    by code_simp
  with create_scratch_disks_one_per_drive [of happy_env "''b1''" three_drives fresh_world] c
  obtain drives' where r: "r = Inr drives'" by (cases r) auto
  with create_scratch_disks_one_per_drive [of happy_env "''b1''" three_drives fresh_world] c
  have "new_events fresh_world w' =
        concat (map (expected_creation happy_env ''b1'') (filter lacks_scratch_disk (map snd three_drives)))"
    and "transient_disks w' =
        transient_disks fresh_world @ map (transient_disk_name ''b1'') (filter lacks_scratch_disk (map snd three_drives))"
    by blast+
  moreover have "concat (map (expected_creation happy_env ''b1'') (filter lacks_scratch_disk (map snd three_drives)))
     = [BlockInfo ''/dev/vda'', CreateTransientDisk ''b1.vda'' 100,
      BlockInfo ''/dev/sdb'', CreateTransientDisk ''b1.sdb'' 100]"
    by code_simp
  moreover have "transient_disks fresh_world @ map (transient_disk_name ''b1'') (filter lacks_scratch_disk (map snd three_drives))
     = [''b1.vda'', ''b1.sdb'']"
    by code_simp
  moreover have "blockInfo happy_env ''/dev/vda'' = Inr (100, 40, 50)"
    by code_simp
  ultimately show ?thesis using c by simp
qed

text \<open>
  C2, as the code has it. If \<^verbatim>\<open>_create_scratch_disks\<close> fails, it failed at a drive \<open>d\<close> without
  a scratch disk, and before the failure propagates the transient disks of the VM (those
  there before, and those created for the drives before \<open>d\<close>) are listed and a removal is
  requested for each: the disks whose removal succeeds are gone, those whose removal fails
  are left; if the listing fails, nothing is removed and its error is what propagates. So
  when the listing and every removal succeed, the VM is left with no transient disk.
\<close>

theorem create_scratch_disks_rollback:
  assumes "create_scratch_disks env bid drives w = (Inl e, w')"
  shows "(\<exists>done d rest.
            map snd drives = done @ d # rest \<and> scratch_disk d = None \<and>
            rolled_back env
              (transient_disks w @ map (transient_disk_name bid) (filter lacks_scratch_disk done)) e w')
       \<and> (\<not> list_transient_disks_fails env \<and> (\<forall>n. \<not> remove_transient_disk_fails env n) \<longrightarrow>
            transient_disks w' = [])"
proof -
  from create_scratch_disks_Inl [OF assms] obtain dn d rest where
    x: "map snd drives = dn @ d # rest" "scratch_disk d = None"
       "rolled_back env (transient_disks w @ map (transient_disk_name bid) (filter lacks_scratch_disk dn)) e w'"
    by blast
  then have "\<not> list_transient_disks_fails env \<and> (\<forall>n. \<not> remove_transient_disk_fails env n) \<longrightarrow>
            transient_disks w' = []"
    by (simp add: rolled_back_def)
  with x show ?thesis by blast
qed

theorem create_scratch_disks_rollback_witness:
  "fst (create_scratch_disks second_creation_fails_env ''b1'' three_drives fresh_world) =
     Inl (BackupError ''Failed to create transient disk'') \<and>
   transient_disks (snd (create_scratch_disks second_creation_fails_env ''b1'' three_drives fresh_world)) = []"
proof -
  have c: "create_scratch_disks second_creation_fails_env ''b1'' three_drives fresh_world =
      (Inl (BackupError ''Failed to create transient disk''),
       snd (create_scratch_disks second_creation_fails_env ''b1'' three_drives fresh_world))"
    by code_simp
  have "\<not> list_transient_disks_fails second_creation_fails_env \<and>
        (\<forall>n. \<not> remove_transient_disk_fails second_creation_fails_env n)"
    by (simp add: second_creation_fails_env_def happy_env_def)
  with create_scratch_disks_rollback [OF c]
  have "transient_disks (snd (create_scratch_disks second_creation_fails_env ''b1'' three_drives fresh_world)) = []"
    by blast
  with c show ?thesis by (metis fst_conv)
qed

text \<open>
  C2 as stated fails: a scratch disk whose removal fails is still listed after the
  rollback. Here the creation for the second drive fails and the removal of the first
  drive's scratch disk fails too.
\<close>

theorem create_scratch_disks_rollback_counterexample:
  "fst (create_scratch_disks stuck_disk_env ''b1'' three_drives fresh_world) =
     Inl (BackupError ''Failed to create transient disk'') \<and>
   transient_disks (snd (create_scratch_disks stuck_disk_env ''b1'' three_drives fresh_world)) = [''b1.vda''] \<and>
   trace (snd (create_scratch_disks stuck_disk_env ''b1'' three_drives fresh_world)) =
     [BlockInfo ''/dev/vda'', CreateTransientDisk ''b1.vda'' 100,
      BlockInfo ''/dev/sdb'', CreateTransientDisk ''b1.sdb'' 100,
      ListTransientDisks, RemoveTransientDisk ''b1.vda'', LogError ''b1.vda'']"
  by code_simp

lemma and_then_isl:
  assumes "\<And>v w1. isl (fst (f v w1))"
  shows "isl (fst (and_then m f w))"
proof -
  obtain r w1 where m: "m w = (r, w1)" by (cases "m w")
  show ?thesis
  proof (cases r)
    case (Inl e)
    with m show ?thesis by (simp add: and_then_def)
  next
    case (Inr v)
    with m assms [of v w1] show ?thesis by (simp add: and_then_def)
  qed
qed

lemma stop_backup_listing_fails:
  assumes "list_transient_disks_fails env"
  shows "isl (fst (stop_backup env bid w))"
  unfolding stop_backup_def
  by (intro and_then_isl) (simp add: remove_scratch_disks_eq assms)

lemma backup_session_listing_fails:
  assumes "list_transient_disks_fails env" "isl (fst (freeze_and_begin env cfg addr drives w))"
    "\<not> isl (thaw env)"
  shows "fst (backup_session env cfg addr drives w) = Inl (BackupError ''Failed to fetch scratch disks'')"
proof -
  from assms(2) obtain e w1 where f: "freeze_and_begin env cfg addr drives w = (Inl e, w1)"
    by (cases "freeze_and_begin env cfg addr drives w"; cases "fst (freeze_and_begin env cfg addr drives w)") auto
  from assms(3) obtain t where t: "thaw env = Inr t" by (cases "thaw env") auto
  have "try_except (freeze_and_begin env cfg addr drives)
          (\<lambda>e. and_then (remove_scratch_disks env (backup_id cfg)) (\<lambda>_. raise e)) w =
        (Inl (BackupError ''Failed to fetch scratch disks''), w1\<lparr>trace := trace w1 @ [ListTransientDisks]\<rparr>)"
    using f assms(1) by (simp add: try_except_def and_then_def remove_scratch_disks_eq)
  then show ?thesis
    using t by (simp add: backup_session_def try_finally_def and_then_def call_def return_ok_def)
qed

text \<open>
  C10. \<^verbatim>\<open>_remove_scratch_disks\<close> raises a \<^verbatim>\<open>BackupError\<close> when the listing fails, and has then
  removed nothing. Otherwise it returns, having requested the removal of every listed disk
  in order, a failed removal being logged and followed by the next one; an empty listing
  removes nothing. So \<^verbatim>\<open>stop_backup\<close> fails when the listing fails, and so does the
  rollback of \<^verbatim>\<open>start_backup\<close>: its error replaces the one that started the rollback.
\<close>

theorem remove_scratch_disks_behaviour:
  "remove_scratch_disks env bid w =
     (if list_transient_disks_fails env
      then (Inl (BackupError ''Failed to fetch scratch disks''),
            w\<lparr>trace := trace w @ [ListTransientDisks]\<rparr>)
      else (Inr (),
            \<lparr>transient_disks = filter (remove_transient_disk_fails env) (transient_disks w),
             trace = trace w @ ListTransientDisks # removal_events env (transient_disks w)\<rparr>))
   \<and> (list_transient_disks_fails env \<longrightarrow> isl (fst (stop_backup env bid w)))
   \<and> (list_transient_disks_fails env \<and> isl (fst (freeze_and_begin env cfg addr drives w)) \<and>
       \<not> isl (thaw env) \<longrightarrow>
      fst (backup_session env cfg addr drives w) = Inl (BackupError ''Failed to fetch scratch disks''))"
  using remove_scratch_disks_eq [of env bid w] stop_backup_listing_fails [of env bid w]
    backup_session_listing_fails [of env cfg addr drives w]
  by simp

theorem remove_scratch_disks_behaviour_witness:
  "remove_scratch_disks listing_fails_env ''b1'' world_with_disk =
     (Inl (BackupError ''Failed to fetch scratch disks''),
      \<lparr>transient_disks = [''b1.vda''], trace = [ListTransientDisks]\<rparr>) \<and>
   isl (fst (stop_backup listing_fails_env ''b1'' world_with_disk))"
proof -
  have l: "list_transient_disks_fails listing_fails_env"
    by (simp add: listing_fails_env_def)
  from remove_scratch_disks_behaviour [of listing_fails_env "''b1''" world_with_disk] l
  have "remove_scratch_disks listing_fails_env ''b1'' world_with_disk =
     (Inl (BackupError ''Failed to fetch scratch disks''), world_with_disk\<lparr>trace := trace world_with_disk @ [ListTransientDisks]\<rparr>)"
    and "isl (fst (stop_backup listing_fails_env ''b1'' world_with_disk))"
    by simp_all
  then show ?thesis by (simp add: world_with_disk_def)
qed

end
